theory Spec2Isabelle
  imports Main
begin

section \<open>Block-state map, warning sink and counters\<close>

text \<open>
  The states of the block-state map (the \<open>XR_E_*\<close> values that \<open>repair/scan.c\<close>
  switches on).
\<close>

datatype xr_state =
    XR_E_UNKNOWN | XR_E_FREE1 | XR_E_FREE | XR_E_INUSE | XR_E_INUSE_FS
  | XR_E_MULT | XR_E_INO | XR_E_FS_MAP | XR_E_BAD_STATE

text \<open>One dense array of states per allocation group: \<open>m agno agbno\<close>.\<close>

type_synonym bmap = "nat \<Rightarrow> nat \<Rightarrow> xr_state"

text \<open>
  Modelled from the spec: \<open>get_bmap\<close>, \<open>set_bmap\<close>, \<open>get_bmap_ext\<close> and
  \<open>set_bmap_ext\<close> are declared in \<open>repair/incore.h\<close>, which is not among the
  sources. The spec (4.1) gives \<open>get(ag, blk) \<rightarrow> state\<close>, \<open>set(ag, blk, state)\<close>,
  \<open>get_extent(ag, blk, end) \<rightarrow> (state, run_length)\<close> and
  \<open>set_extent(ag, blk, len, state)\<close>, the extent variants working on runs of
  neighbours in equal state: \<open>get_bmap_ext\<close> returns the state of \<open>blk\<close> and the
  length of the run of blocks in that state that starts at \<open>blk\<close> and stops before
  \<open>end\<close>.
\<close>

definition get_bmap :: "bmap \<Rightarrow> nat \<Rightarrow> nat \<Rightarrow> xr_state" where
  "get_bmap m agno agbno = m agno agbno"

definition set_bmap_ext :: "bmap \<Rightarrow> nat \<Rightarrow> nat \<Rightarrow> nat \<Rightarrow> xr_state \<Rightarrow> bmap" where
  "set_bmap_ext m agno agbno blen s =
     (\<lambda>a x. if a = agno \<and> agbno \<le> x \<and> x < agbno + blen then s else m a x)"

definition set_bmap :: "bmap \<Rightarrow> nat \<Rightarrow> nat \<Rightarrow> xr_state \<Rightarrow> bmap" where
  "set_bmap m agno agbno s = set_bmap_ext m agno agbno 1 s"

text \<open>\<open>run_len f s b n\<close>: how many of the \<open>n\<close> blocks from \<open>b\<close> on are in state \<open>s\<close>
  before the first one that is not.\<close>

fun run_len :: "(nat \<Rightarrow> xr_state) \<Rightarrow> xr_state \<Rightarrow> nat \<Rightarrow> nat \<Rightarrow> nat" where
  "run_len f s b 0 = 0"
| "run_len f s b (Suc n) = (if f b = s then Suc (run_len f s (Suc b) n) else 0)"

definition get_bmap_ext :: "bmap \<Rightarrow> nat \<Rightarrow> nat \<Rightarrow> nat \<Rightarrow> xr_state \<times> nat" where
  "get_bmap_ext m agno agbno maxbno =
     (m agno agbno, run_len (m agno) (m agno agbno) agbno (maxbno - agbno))"

text \<open>
  A message handed to \<open>do_warn\<close>: the leading words of its format string and the
  numeric arguments (block numbers, counts) in the order of the call; a state
  printed with \<open>%d\<close> and the fork or tree names are left out of the argument list.
\<close>

datatype msg = Warn string "nat list"

text \<open>The per-AG accumulator \<open>struct aghdr_cnts\<close>; every field is a fixed-width
  unsigned integer, so every update below is reduced modulo its width.\<close>

record aghdr_cnts =
  cnt_agno :: nat
  agffreeblks :: nat
  agflongest :: nat
  agfbtreeblks :: nat
  agicount :: nat
  agifreecount :: nat
  fdblocks :: nat
  ifreecount :: nat
  fibtfreecount :: nat

definition u32 :: "nat \<Rightarrow> nat" where
  "u32 x = x mod 2 ^ 32"

definition u64 :: "nat \<Rightarrow> nat" where
  "u64 x = x mod 2 ^ 64"

definition zero_cnts :: aghdr_cnts where
  "zero_cnts = \<lparr> cnt_agno = 0, agffreeblks = 0, agflongest = 0, agfbtreeblks = 0,
       agicount = 0, agifreecount = 0, fdblocks = 0, ifreecount = 0,
       fibtfreecount = 0 \<rparr>"

section \<open>Mount geometry, buffers and the scan state\<close>

text \<open>
  What \<open>scan.c\<close> reads from \<open>mp\<close> and from the globals of \<open>globals.h\<close>. The range
  checks \<open>verify_agbno\<close>, \<open>verify_aginum\<close> and \<open>verify_dfsbno\<close> live in
  \<open>repair/dinode.c\<close>, which is not among the sources: they are parameters here.
  \<open>verify_agbno\<close> and \<open>verify_dfsbno\<close> answer true for a valid number,
  \<open>verify_aginum\<close> answers true (non-zero) for a bad one, as \<open>scan.c\<close> uses them.
\<close>

record mount =
  m_alloc_mxr :: "nat \<Rightarrow> nat"
  m_alloc_mnr :: "nat \<Rightarrow> nat"
  m_inobt_mxr :: "nat \<Rightarrow> nat"
  m_inobt_mnr :: "nat \<Rightarrow> nat"
  m_bmap_dmxr :: "nat \<Rightarrow> nat"
  m_bmap_dmnr :: "nat \<Rightarrow> nat"
  sb_agcount :: nat
  sb_agblklog :: nat
  sb_inopblock :: nat
  sb_inopblog :: nat
  sb_icount :: nat
  sb_ifree :: nat
  sb_fdblocks :: nat
  hascrc :: bool
  hassparseinodes :: bool
  hasfinobt :: bool
  haslazysbcount :: bool
  agfl_size :: nat
  sb_block :: nat
  agf_block :: nat
  agi_block :: nat
  agfl_block :: nat
  verify_agbno :: "nat \<Rightarrow> nat \<Rightarrow> bool"
  verify_aginum :: "nat \<Rightarrow> nat \<Rightarrow> bool"
  verify_dfsbno :: "nat \<Rightarrow> bool"
  inodes_per_block :: nat
  fs_aligned_inodes :: bool
  fs_ino_alignment :: nat
  first_prealloc_ino :: nat
  last_prealloc_ino :: nat
  no_modify :: bool

text \<open>An authoritative record of the in-core inode inventory (\<open>ino_tree_node_t\<close>):
  its first inode and the free and sparse flag of each of its 64 inodes.\<close>

record ino_tree_node =
  ino_startnum :: nat
  nd_free :: "nat \<Rightarrow> bool"
  nd_sparse :: "nat \<Rightarrow> bool"

text \<open>
  The state the scan works on: the block-state map, the calls of \<open>set_bmap\<close> and
  \<open>set_bmap_ext\<close> made so far as \<open>(agno, agbno, blen, state)\<close> (oldest first), the
  warnings emitted so far, the btree blocks fetched with \<open>libxfs_readbuf\<close>,
  the accumulator \<open>priv\<close> points at, the global \<open>bad_ino_btree\<close>, and the in-core
  inode inventory: the authoritative records by AG and first inode, and the
  uncertain entries \<open>(agno, ino, free)\<close> in the order they were added.
\<close>

record scan_state =
  ag_bmap :: bmap
  sets :: "(nat \<times> nat \<times> nat \<times> xr_state) list"
  warns :: "msg list"
  reads :: "(nat \<times> nat) list"
  cnts :: aghdr_cnts
  bad_ino_btree :: bool
  ino_tree :: "nat \<Rightarrow> nat \<Rightarrow> ino_tree_node option"
  uncertain :: "(nat \<times> nat \<times> bool) list"

definition do_warn :: "string \<Rightarrow> nat list \<Rightarrow> scan_state \<Rightarrow> scan_state" where
  "do_warn fmt args st = st\<lparr>warns := warns st @ [Warn fmt args]\<rparr>"

definition bmap_set :: "nat \<Rightarrow> nat \<Rightarrow> xr_state \<Rightarrow> scan_state \<Rightarrow> scan_state" where
  "bmap_set agno agbno s st =
     st\<lparr>ag_bmap := set_bmap (ag_bmap st) agno agbno s, sets := sets st @ [(agno, agbno, 1, s)]\<rparr>"

definition bmap_set_ext :: "nat \<Rightarrow> nat \<Rightarrow> nat \<Rightarrow> xr_state \<Rightarrow> scan_state \<Rightarrow> scan_state" where
  "bmap_set_ext agno agbno blen s st =
     st\<lparr>ag_bmap := set_bmap_ext (ag_bmap st) agno agbno blen s,
        sets := sets st @ [(agno, agbno, blen, s)]\<rparr>"

text \<open>
  Modelled from the spec: \<open>do_error\<close> and \<open>do_abort\<close> are defined outside the
  sources; the spec (6) has \<open>error(fmt, \<dots>)\<close> (terminates) and
  \<open>abort(fmt, \<dots>)\<close> (terminates). So the process ends without returning when
  \<open>do_error\<close> or \<open>do_abort\<close> is called, when an \<open>assert\<close> fails, or on a read
  outside an array; a loop may also never end.
\<close>

datatype fatal =
    Do_error string "nat list"
  | Do_abort string "nat list"
  | Assert_failed
  | Out_of_bounds int
  | Never_returns

text \<open>
  The verdict of the buffer gateway on a block that was read, and a buffer: the
  block it holds and \<open>b_error\<close>. A read that fails yields no buffer
  (\<open>libxfs_readbuf\<close> returns NULL).
\<close>

datatype b_error = B_OK | EFSBADCRC | EFSCORRUPTED

text \<open>The result of a routine that may end the process: \<open>Inl\<close> with the way it
  ended and the state at that point (for a loop that never ends, the state on
  entry to the loop), or \<open>Inr\<close> with the state on return.\<close>

type_synonym scan_result = "fatal \<times> scan_state + scan_state"

section \<open>Freespace btrees: \<open>scan_allocbt\<close>\<close>

text \<open>Magic numbers of the on-disk format (\<open>xfs_format.h\<close>).\<close>

definition XFS_ABTB_MAGIC :: nat where "XFS_ABTB_MAGIC = 0x41425442"
definition XFS_ABTB_CRC_MAGIC :: nat where "XFS_ABTB_CRC_MAGIC = 0x41423342"
definition XFS_ABTC_MAGIC :: nat where "XFS_ABTC_MAGIC = 0x41425443"
definition XFS_ABTC_CRC_MAGIC :: nat where "XFS_ABTC_CRC_MAGIC = 0x41423343"

definition is_bno_magic :: "nat \<Rightarrow> bool" where
  "is_bno_magic magic \<longleftrightarrow> magic = XFS_ABTB_MAGIC \<or> magic = XFS_ABTB_CRC_MAGIC"

definition is_cnt_magic :: "nat \<Rightarrow> bool" where
  "is_cnt_magic magic \<longleftrightarrow> magic = XFS_ABTC_MAGIC \<or> magic = XFS_ABTC_CRC_MAGIC"

text \<open>
  A short-form btree block as the visitors read it: the header fields in host
  order, and the record and pointer areas by slot index (the slots past
  \<open>bb_numrecs\<close> hold whatever the block holds there). The records of a freespace
  block are pairs \<open>(ar_startblock, ar_blockcount)\<close>.
\<close>

record 'r btree_block =
  bb_magic :: nat
  bb_level :: nat
  bb_numrecs :: nat
  bb_rec :: "nat \<Rightarrow> 'r"
  bb_ptr :: "nat \<Rightarrow> nat"

text \<open>
  The body of the \<open>switch (state)\<close> in the loop over the blocks of one leaf
  record (lines 667-688): \<open>b\<close> is where the loop stands, \<open>state\<close> and \<open>blen\<close> what
  \<open>get_bmap_ext\<close> returned there.
\<close>

definition free_claim :: "nat \<Rightarrow> nat \<Rightarrow> nat \<Rightarrow> nat \<Rightarrow> xr_state \<Rightarrow> scan_state \<Rightarrow> scan_state" where
  "free_claim magic agno b blen state st =
     (case state of
        XR_E_UNKNOWN \<Rightarrow> bmap_set agno b XR_E_FREE1 st
      | XR_E_FREE1 \<Rightarrow>
          if is_cnt_magic magic then bmap_set_ext agno b blen XR_E_FREE st
          else do_warn ''block multiply claimed by space tree'' [agno, b, b + blen - 1] st
      | _ \<Rightarrow> do_warn ''block multiply claimed by space tree'' [agno, b, b + blen - 1] st)"

lemma run_len_pos: "0 < n \<Longrightarrow> 0 < run_len f (f b) b n"
  by (cases n) simp_all

lemma run_len_le: "run_len f s b n \<le> n"
  by (induction n arbitrary: b) simp_all

text \<open>The loop \<open>for ( ; b < end; b += blen)\<close> of lines 665-689.\<close>

function free_range :: "nat \<Rightarrow> nat \<Rightarrow> nat \<Rightarrow> nat \<Rightarrow> scan_state \<Rightarrow> scan_state" where
  "free_range magic agno endb b st =
     (if b < endb then
        free_range magic agno endb (b + snd (get_bmap_ext (ag_bmap st) agno b endb))
          (free_claim magic agno b (snd (get_bmap_ext (ag_bmap st) agno b endb))
             (fst (get_bmap_ext (ag_bmap st) agno b endb)) st)
      else st)"
  by pat_completeness auto
termination
  by (relation "measure (\<lambda>(magic, agno, endb, b, st). endb - b)")
     (auto simp: get_bmap_ext_def intro!: diff_less_mono2 run_len_pos)

declare free_range.simps [simp del]

text \<open>
  One leaf record (the body of the loop of lines 621-690): \<open>i\<close> is the slot,
  \<open>bno\<close> the block the record sits in; the locals \<open>lastblock\<close> and \<open>lastcount\<close> are
  threaded with the state.
\<close>

definition allocbt_rec ::
  "mount \<Rightarrow> nat \<Rightarrow> nat \<Rightarrow> nat \<Rightarrow> nat \<Rightarrow> nat \<times> nat \<Rightarrow> scan_state \<times> nat \<times> nat
     \<Rightarrow> scan_state \<times> nat \<times> nat" where
  "allocbt_rec mp magic agno bno i r acc =
     (case acc of (st, lastblock, lastcount) \<Rightarrow>
      let b = fst r; len = snd r; endb = u32 (b + len) in
      if b = 0 \<or> \<not> verify_agbno mp agno b then
        (do_warn ''invalid start block in record of btree block'' [b, i, agno, bno] st,
         lastblock, lastcount)
      else if len = 0 \<or> \<not> verify_agbno mp agno (u32 (endb + 2 ^ 32 - 1)) then
        (do_warn ''invalid length in record of btree block'' [len, i, agno, bno] st,
         lastblock, lastcount)
      else if is_bno_magic magic then
        (if b \<le> lastblock then
           (free_range magic agno endb b
              (do_warn ''out-of-order bno btree record'' [i, b, len, agno, bno] st),
            lastblock, lastcount)
         else (free_range magic agno endb b st, b, lastcount))
      else
        (let c = cnts st;
             c1 = c\<lparr>fdblocks := u64 (fdblocks c + len),
                    agffreeblks := u32 (agffreeblks c + len)\<rparr>;
             c2 = (if len > agflongest c1 then c1\<lparr>agflongest := len\<rparr> else c1);
             st1 = st\<lparr>cnts := c2\<rparr>
         in if len < lastcount then
              (free_range magic agno endb b
                 (do_warn ''out-of-order cnt btree record'' [i, b, len, agno, bno] st1),
               lastblock, lastcount)
            else (free_range magic agno endb b st1, lastblock, len)))"

text \<open>The loop over the records of a leaf, \<open>for (i = 0; i < numrecs; i++)\<close>.\<close>

definition allocbt_leaf ::
  "mount \<Rightarrow> nat \<Rightarrow> nat \<Rightarrow> nat \<Rightarrow> (nat \<Rightarrow> nat \<times> nat) \<Rightarrow> nat \<Rightarrow> scan_state \<Rightarrow> scan_state" where
  "allocbt_leaf mp magic agno bno rp numrecs st =
     fst (foldl (\<lambda>acc i. allocbt_rec mp magic agno bno i (rp i) acc) (st, 0, 0) [0..<numrecs])"

section \<open>Inode btrees: the per-record routines\<close>

text \<open>
  An on-disk inode btree record in host order. \<open>ir_u\<close> is the 32-bit union: the
  whole word is \<open>ir_u.f.ir_freecount\<close>; in the sparse format its upper 16 bits are
  \<open>ir_u.sp.ir_holemask\<close>, the next 8 bits \<open>ir_u.sp.ir_count\<close> and the low 8 bits
  \<open>ir_u.sp.ir_freecount\<close> (the record is big-endian on disk).
\<close>

record xfs_inobt_rec =
  ir_startino :: nat
  ir_u :: nat
  ir_free :: nat

definition ir_holemask :: "xfs_inobt_rec \<Rightarrow> nat" where
  "ir_holemask rp = (ir_u rp div 2 ^ 16) mod 2 ^ 16"

definition ir_count :: "xfs_inobt_rec \<Rightarrow> nat" where
  "ir_count rp = (ir_u rp div 2 ^ 8) mod 2 ^ 8"

definition ir_sp_freecount :: "xfs_inobt_rec \<Rightarrow> nat" where
  "ir_sp_freecount rp = ir_u rp mod 2 ^ 8"

definition XFS_INODES_PER_CHUNK :: nat where
  "XFS_INODES_PER_CHUNK = 64"

text \<open>
  The macros and inline helpers of the format headers that the record routines
  use (the headers are not among the sources): the inode's offset in its block
  and its block, from the low \<open>sb_inopblog\<close> bits and the rest of an AG inode
  number; the filesystem-wide inode number; bit \<open>j\<close> of the free mask; the
  hole-mask bit of inode \<open>j\<close> (one bit for every four inodes); and the free count
  of a record, which the sparse format keeps in its low byte.
\<close>

definition XFS_AGINO_TO_OFFSET :: "mount \<Rightarrow> nat \<Rightarrow> nat" where
  "XFS_AGINO_TO_OFFSET mp i = i mod 2 ^ sb_inopblog mp"

definition XFS_AGINO_TO_AGBNO :: "mount \<Rightarrow> nat \<Rightarrow> nat" where
  "XFS_AGINO_TO_AGBNO mp i = i div 2 ^ sb_inopblog mp"

definition XFS_AGINO_TO_INO :: "mount \<Rightarrow> nat \<Rightarrow> nat \<Rightarrow> nat" where
  "XFS_AGINO_TO_INO mp agno i = or (push_bit (sb_inopblog mp + sb_agblklog mp) agno) i"

definition XFS_INOBT_IS_FREE_DISK :: "xfs_inobt_rec \<Rightarrow> nat \<Rightarrow> bool" where
  "XFS_INOBT_IS_FREE_DISK rp j \<longleftrightarrow> (ir_free rp div 2 ^ j) mod 2 = 1"

definition xfs_inobt_is_sparse_disk :: "xfs_inobt_rec \<Rightarrow> nat \<Rightarrow> bool" where
  "xfs_inobt_is_sparse_disk rp offset \<longleftrightarrow> (ir_holemask rp div 2 ^ (offset div 4)) mod 2 = 1"

definition inorec_get_freecount :: "mount \<Rightarrow> xfs_inobt_rec \<Rightarrow> nat" where
  "inorec_get_freecount mp rp = (if hassparseinodes mp then ir_sp_freecount rp else ir_u rp)"

definition ino_issparse :: "mount \<Rightarrow> xfs_inobt_rec \<Rightarrow> nat \<Rightarrow> bool" where
  "ino_issparse mp rp offset =
     (if \<not> hassparseinodes mp then False else xfs_inobt_is_sparse_disk rp offset)"

datatype inobt_type = INOBT | FINOBT

definition inobt_names :: "inobt_type \<Rightarrow> string" where
  "inobt_names t = (case t of INOBT \<Rightarrow> ''inobt'' | FINOBT \<Rightarrow> ''finobt'')"

text \<open>
  \<open>verify_single_ino_chunk_align\<close> (lines 789-856). The result is the state with
  the warnings added, the returned \<open>suspect\<close> and the out-parameter \<open>*skip\<close>. The
  end of the chunk, \<open>ino + XFS_INODES_PER_CHUNK - 1\<close>, is truncated to the 32 bits
  of the parameter of \<open>verify_aginum\<close>.
\<close>

definition badly_aligned :: "mount \<Rightarrow> nat \<Rightarrow> bool" where
  "badly_aligned mp ino \<longleftrightarrow>
     ino = 0 \<or>
     (inodes_per_block mp \<le> XFS_INODES_PER_CHUNK \<and> XFS_AGINO_TO_OFFSET mp ino \<noteq> 0) \<or>
     (inodes_per_block mp > XFS_INODES_PER_CHUNK \<and>
        XFS_AGINO_TO_OFFSET mp ino mod XFS_INODES_PER_CHUNK \<noteq> 0) \<or>
     (fs_aligned_inodes mp \<and> fs_ino_alignment mp \<noteq> 0 \<and>
        XFS_AGINO_TO_AGBNO mp ino mod fs_ino_alignment mp \<noteq> 0)"

definition verify_single_ino_chunk_align ::
  "mount \<Rightarrow> nat \<Rightarrow> inobt_type \<Rightarrow> xfs_inobt_rec \<Rightarrow> nat \<Rightarrow> scan_state
     \<Rightarrow> scan_state \<times> nat \<times> bool" where
  "verify_single_ino_chunk_align mp agno type rp suspect st =
     (let ino = ir_startino rp;
          lino = XFS_AGINO_TO_INO mp agno ino;
          st1 = (if badly_aligned mp ino
                 then do_warn (''badly aligned rec, '' @ inobt_names type) [lino] st else st);
          suspect1 = (if badly_aligned mp ino then suspect + 1 else suspect)
      in if verify_aginum mp agno ino then
           (do_warn (''bad starting inode # in rec, skipping rec, '' @ inobt_names type)
              [lino, agno, ino] st1, suspect1 + 1, True)
         else if verify_aginum mp agno (u32 (ino + XFS_INODES_PER_CHUNK - 1)) then
           (do_warn (''bad ending inode # in rec, skipping rec, '' @ inobt_names type)
              [lino + XFS_INODES_PER_CHUNK - 1, agno, ino + XFS_INODES_PER_CHUNK - 1] st1,
            suspect1 + 1, True)
         else (st1, suspect1, False))"

text \<open>
  Modelled from the spec: the in-core inode inventory (\<open>repair/incore_ino.c\<close>) is
  not among the sources. Following the spec (3, 6): \<open>set_inode_free_alloc\<close> and
  \<open>set_inode_used_alloc\<close> file an authoritative record for the chunk at \<open>ino\<close>
  with inode 0 free or used; \<open>set_inode_free\<close>, \<open>set_inode_used\<close> and
  \<open>set_inode_sparse\<close> set the flag of inode \<open>j\<close> of a record;
  \<open>add_aginode_uncertain\<close> adds an uncertain entry; \<open>find_inode_rec_range\<close>
  answers whether a record was already filed for an inode range, with the
  first such record: the records that reach into \<open>[lo, hi)\<close> start at
  \<open>lo - 63\<close> or later and before \<open>hi\<close>.
\<close>

definition new_ino_rec :: "nat \<Rightarrow> bool \<Rightarrow> ino_tree_node" where
  "new_ino_rec ino free0 =
     \<lparr> ino_startnum = ino, nd_free = (\<lambda>j. j = 0 \<and> free0), nd_sparse = (\<lambda>j. False) \<rparr>"

definition set_inode_alloc :: "nat \<Rightarrow> nat \<Rightarrow> bool \<Rightarrow> scan_state \<Rightarrow> scan_state" where
  "set_inode_alloc agno ino free0 st =
     st\<lparr>ino_tree := (ino_tree st)(agno := (ino_tree st agno)(ino \<mapsto> new_ino_rec ino free0))\<rparr>"

definition upd_ino_rec ::
  "nat \<Rightarrow> nat \<Rightarrow> (ino_tree_node \<Rightarrow> ino_tree_node) \<Rightarrow> scan_state \<Rightarrow> scan_state" where
  "upd_ino_rec agno ino f st =
     st\<lparr>ino_tree := (ino_tree st)(agno := (ino_tree st agno)(ino := map_option f (ino_tree st agno ino)))\<rparr>"

definition set_inode_free_flag :: "nat \<Rightarrow> nat \<Rightarrow> nat \<Rightarrow> bool \<Rightarrow> scan_state \<Rightarrow> scan_state" where
  "set_inode_free_flag agno ino j v = upd_ino_rec agno ino (\<lambda>r. r\<lparr>nd_free := (nd_free r)(j := v)\<rparr>)"

definition set_inode_sparse :: "nat \<Rightarrow> nat \<Rightarrow> nat \<Rightarrow> scan_state \<Rightarrow> scan_state" where
  "set_inode_sparse agno ino j = upd_ino_rec agno ino (\<lambda>r. r\<lparr>nd_sparse := (nd_sparse r)(j := True)\<rparr>)"

definition add_aginode_uncertain :: "nat \<Rightarrow> nat \<Rightarrow> bool \<Rightarrow> scan_state \<Rightarrow> scan_state" where
  "add_aginode_uncertain agno ino free st = st\<lparr>uncertain := uncertain st @ [(agno, ino, free)]\<rparr>"

definition find_inode_rec_range :: "scan_state \<Rightarrow> nat \<Rightarrow> nat \<Rightarrow> nat \<Rightarrow> ino_tree_node option" where
  "find_inode_rec_range st agno lo hi =
     (case List.find (\<lambda>s. ino_tree st agno s \<noteq> None) [lo - 63 ..< hi] of
        None \<Rightarrow> None | Some s \<Rightarrow> ino_tree st agno s)"

text \<open>
  \<open>import_single_ino_chunk\<close> (lines 864-931). First loop: when not suspect, one
  authoritative record with the free flag of each inode from the free mask;
  when suspect, the 64 inodes as uncertain entries. Second loop: the sparse
  marks and the two counts; its \<open>suspect\<close> can rise in the middle of the loop,
  after which no further inode is marked sparse.
\<close>

definition import_first_loop :: "nat \<Rightarrow> xfs_inobt_rec \<Rightarrow> nat \<Rightarrow> scan_state \<Rightarrow> scan_state" where
  "import_first_loop agno rp suspect st =
     (let ino = ir_startino rp in
      if suspect = 0 then
        foldl (\<lambda>s j. set_inode_free_flag agno ino j (XFS_INOBT_IS_FREE_DISK rp j) s)
          (set_inode_alloc agno ino (XFS_INOBT_IS_FREE_DISK rp 0) st)
          [1..<XFS_INODES_PER_CHUNK]
      else
        foldl (\<lambda>s j. add_aginode_uncertain agno (u32 (ino + j)) (XFS_INOBT_IS_FREE_DISK rp j) s)
          st [0..<XFS_INODES_PER_CHUNK])"

text \<open>The accumulator of the second loop: state, \<open>suspect\<close>, \<open>nfree\<close>, \<open>ninodes\<close>.\<close>

definition import_count_step ::
  "mount \<Rightarrow> nat \<Rightarrow> inobt_type \<Rightarrow> xfs_inobt_rec \<Rightarrow> bool
     \<Rightarrow> scan_state \<times> nat \<times> nat \<times> nat \<Rightarrow> nat \<Rightarrow> scan_state \<times> nat \<times> nat \<times> nat" where
  "import_count_step mp agno type rp has_rec acc j =
     (case acc of (st, suspect, nfree, ninodes) \<Rightarrow>
      if ino_issparse mp rp j then
        (let mism = (suspect = 0 \<and> \<not> XFS_INOBT_IS_FREE_DISK rp j);
             st1 = (if mism then do_warn (''ir_holemask/ir_free mismatch, chunk, '' @ inobt_names type)
                      [agno, ir_startino rp, ir_holemask rp, ir_free rp] st else st);
             suspect1 = (if mism then suspect + 1 else suspect);
             st2 = (if suspect1 = 0 \<and> has_rec then set_inode_sparse agno (ir_startino rp) j st1
                    else st1)
         in (st2, suspect1, nfree, ninodes))
      else
        (st, suspect, (if XFS_INOBT_IS_FREE_DISK rp j then nfree + 1 else nfree), ninodes + 1))"

definition import_single_ino_chunk ::
  "mount \<Rightarrow> nat \<Rightarrow> inobt_type \<Rightarrow> xfs_inobt_rec \<Rightarrow> nat \<Rightarrow> scan_state
     \<Rightarrow> scan_state \<times> nat \<times> nat \<times> nat" where
  "import_single_ino_chunk mp agno type rp suspect st =
     foldl (import_count_step mp agno type rp (suspect = 0))
       (import_first_loop agno rp suspect st, suspect, 0, 0) [0..<XFS_INODES_PER_CHUNK]"

text \<open>
  Whether inode \<open>ino + j\<close> of AG \<open>agno\<close> lies in the pre-allocated range of AG 0
  (the test of lines 981-983 and 1105-1107).
\<close>

definition in_prealloc :: "mount \<Rightarrow> nat \<Rightarrow> nat \<Rightarrow> bool" where
  "in_prealloc mp agno i \<longleftrightarrow> agno = 0 \<and> first_prealloc_ino mp \<le> i \<and> i < last_prealloc_ino mp"

text \<open>
  The loop over the blocks of a chunk in \<open>scan_single_ino_chunk\<close> (lines 969-995),
  \<open>for (j = 0; j < XFS_INODES_PER_CHUNK; j += mp->m_sb.sb_inopblock)\<close>. The result
  is \<open>None\<close> when the loop never ends, else whether the function returned from
  inside the loop, the value of \<open>suspect\<close> and the state.
\<close>

partial_function (option) ino_chunk_blocks ::
  "mount \<Rightarrow> nat \<Rightarrow> xfs_inobt_rec \<Rightarrow> nat \<Rightarrow> nat \<Rightarrow> scan_state
     \<Rightarrow> (bool \<times> nat \<times> scan_state) option" where
  "ino_chunk_blocks mp agno rp j suspect st =
     (if XFS_INODES_PER_CHUNK \<le> j then Some (False, suspect, st)
      else if ino_issparse mp rp j then
        ino_chunk_blocks mp agno rp (j + sb_inopblock mp) suspect st
      else if get_bmap (ag_bmap st) agno (XFS_AGINO_TO_AGBNO mp (u32 (ir_startino rp + j)))
                = XR_E_UNKNOWN then
        ino_chunk_blocks mp agno rp (j + sb_inopblock mp) suspect
          (bmap_set agno (XFS_AGINO_TO_AGBNO mp (u32 (ir_startino rp + j))) XR_E_INO st)
      else if get_bmap (ag_bmap st) agno (XFS_AGINO_TO_AGBNO mp (u32 (ir_startino rp + j)))
                = XR_E_INUSE_FS \<and> in_prealloc mp agno (u32 (ir_startino rp + j)) then
        ino_chunk_blocks mp agno rp (j + sb_inopblock mp) suspect
          (bmap_set agno (XFS_AGINO_TO_AGBNO mp (u32 (ir_startino rp + j))) XR_E_INO st)
      else
        Some (True, suspect + 1,
          do_warn ''inode chunk claims used block, inobt block''
            [agno, XFS_AGINO_TO_AGBNO mp (u32 (ir_startino rp + j)), sb_inopblock mp] st))"

text \<open>The checks that follow the import in both routines: the stored free count
  against the counted one, and the stored inode count of a sparse record.\<close>

definition check_ir_count :: "mount \<Rightarrow> nat \<Rightarrow> xfs_inobt_rec \<Rightarrow> nat \<Rightarrow> scan_state \<Rightarrow> scan_state" where
  "check_ir_count mp agno rp ninodes st =
     (if hassparseinodes mp \<and> ninodes \<noteq> ir_count rp
      then do_warn ''invalid inode count, inode chunk'' [agno, ir_startino rp, ir_count rp, ninodes] st
      else st)"

text \<open>\<open>scan_single_ino_chunk\<close> (lines 933-1046): the state and the returned
  \<open>suspect\<close>, or \<open>None\<close> when the loop over the blocks never ends.\<close>

definition scan_single_ino_chunk ::
  "mount \<Rightarrow> nat \<Rightarrow> xfs_inobt_rec \<Rightarrow> nat \<Rightarrow> scan_state \<Rightarrow> (scan_state \<times> nat) option" where
  "scan_single_ino_chunk mp agno rp suspect0 st0 =
     (let ino = ir_startino rp;
          off = XFS_AGINO_TO_OFFSET mp ino;
          lino = XFS_AGINO_TO_INO mp agno ino;
          freecount = inorec_get_freecount mp rp
      in case verify_single_ino_chunk_align mp agno INOBT rp suspect0 st0 of
        (st1, suspect1, skip) \<Rightarrow>
          if skip then Some (st1, suspect1)
          else
            (case (if off = 0 \<and> suspect1 = 0 then ino_chunk_blocks mp agno rp 0 suspect1 st1
                   else Some (False, suspect1, st1)) of
               None \<Rightarrow> None
             | Some (returned, suspect2, st2) \<Rightarrow>
                 if returned then Some (st2, suspect2)
                 else
                   (let first_rec = find_inode_rec_range st2 agno ino (u32 (ino + XFS_INODES_PER_CHUNK));
                        st3 = (case first_rec of None \<Rightarrow> st2
                               | Some fr \<Rightarrow> do_warn ''inode rec overlaps existing rec''
                                    [lino, agno, ino, agno, ino_startnum fr] st2);
                        suspect3 = (case first_rec of None \<Rightarrow> suspect2 | Some fr \<Rightarrow> suspect2 + 1)
                    in if (case first_rec of None \<Rightarrow> False | Some fr \<Rightarrow> ino_startnum fr = ino)
                       then Some (st3, suspect3)
                       else
                         (case import_single_ino_chunk mp agno INOBT rp suspect3 st3 of
                            (st4, suspect4, nfree, ninodes) \<Rightarrow>
                              Some (check_ir_count mp agno rp ninodes
                                      (if nfree \<noteq> freecount
                                       then do_warn ''ir_freecount/free mismatch, inode chunk''
                                              [agno, ino, freecount, nfree] st4
                                       else st4),
                                    suspect4)))))"

text \<open>The loop over the blocks of a chunk in \<open>scan_single_finobt_chunk\<close>
  (lines 1085-1120), with the same result as \<open>ino_chunk_blocks\<close>.\<close>

partial_function (option) finobt_chunk_blocks ::
  "mount \<Rightarrow> nat \<Rightarrow> xfs_inobt_rec \<Rightarrow> nat \<Rightarrow> nat \<Rightarrow> scan_state
     \<Rightarrow> (bool \<times> nat \<times> scan_state) option" where
  "finobt_chunk_blocks mp agno rp j suspect st =
     (if XFS_INODES_PER_CHUNK \<le> j then Some (False, suspect, st)
      else if ino_issparse mp rp j then
        (if get_bmap (ag_bmap st) agno (XFS_AGINO_TO_AGBNO mp (u32 (ir_startino rp + j)))
              = XR_E_INO then
           finobt_chunk_blocks mp agno rp (j + sb_inopblock mp) (suspect + 1)
             (do_warn ''sparse inode chunk claims inode block, finobt block''
                [agno, XFS_AGINO_TO_AGBNO mp (u32 (ir_startino rp + j)), sb_inopblock mp] st)
         else finobt_chunk_blocks mp agno rp (j + sb_inopblock mp) suspect st)
      else if get_bmap (ag_bmap st) agno (XFS_AGINO_TO_AGBNO mp (u32 (ir_startino rp + j)))
                = XR_E_INO then
        finobt_chunk_blocks mp agno rp (j + sb_inopblock mp) suspect st
      else if get_bmap (ag_bmap st) agno (XFS_AGINO_TO_AGBNO mp (u32 (ir_startino rp + j)))
                = XR_E_UNKNOWN \<or>
              (get_bmap (ag_bmap st) agno (XFS_AGINO_TO_AGBNO mp (u32 (ir_startino rp + j)))
                = XR_E_INUSE_FS \<and> in_prealloc mp agno (u32 (ir_startino rp + j))) then
        finobt_chunk_blocks mp agno rp (j + sb_inopblock mp) (suspect + 1)
          (bmap_set agno (XFS_AGINO_TO_AGBNO mp (u32 (ir_startino rp + j))) XR_E_INO
             (do_warn ''inode chunk claims untracked block, finobt block''
                [agno, XFS_AGINO_TO_AGBNO mp (u32 (ir_startino rp + j)), sb_inopblock mp] st))
      else
        Some (True, suspect + 1,
          do_warn ''inode chunk claims used block, finobt block''
            [agno, XFS_AGINO_TO_AGBNO mp (u32 (ir_startino rp + j)), sb_inopblock mp] st))"

text \<open>The loop of lines 1144-1164, which compares a free-inode record with the
  authoritative record found for it: \<open>suspect\<close>, \<open>nfree\<close> and \<open>ninodes\<close>.\<close>

definition finobt_compare_step ::
  "mount \<Rightarrow> xfs_inobt_rec \<Rightarrow> ino_tree_node \<Rightarrow> nat \<times> nat \<times> nat \<Rightarrow> nat \<Rightarrow> nat \<times> nat \<times> nat" where
  "finobt_compare_step mp rp first_rec acc j =
     (case acc of (suspect, nfree, ninodes) \<Rightarrow>
      let isfree = XFS_INOBT_IS_FREE_DISK rp j;
          issparse = ino_issparse mp rp j;
          suspect1 = (if suspect = 0 \<and> isfree \<noteq> nd_free first_rec j then suspect + 1 else suspect);
          suspect2 = (if suspect1 = 0 \<and> issparse \<noteq> nd_sparse first_rec j then suspect1 + 1
                      else suspect1)
      in (suspect2, (if isfree \<and> \<not> issparse then nfree + 1 else nfree),
          (if \<not> issparse then ninodes + 1 else ninodes)))"

text \<open>The code from the label \<open>check_freecount\<close> on (lines 1187-1219).\<close>

definition check_freecount ::
  "mount \<Rightarrow> nat \<Rightarrow> xfs_inobt_rec \<Rightarrow> nat \<Rightarrow> nat \<Rightarrow> scan_state \<Rightarrow> scan_state" where
  "check_freecount mp agno rp nfree ninodes st =
     (let ino = ir_startino rp;
          freecount = inorec_get_freecount mp rp;
          st1 = (if nfree \<noteq> freecount
                 then do_warn ''finobt ir_freecount/free mismatch, inode chunk''
                        [agno, ino, freecount, nfree] st
                 else st);
          st2 = (if nfree = 0
                 then do_warn ''finobt record with no free inodes, inode chunk'' [agno, ino] st1
                 else st1)
      in check_ir_count mp agno rp ninodes st2)"

text \<open>\<open>scan_single_finobt_chunk\<close> (lines 1048-1220).\<close>

definition scan_single_finobt_chunk ::
  "mount \<Rightarrow> nat \<Rightarrow> xfs_inobt_rec \<Rightarrow> nat \<Rightarrow> scan_state \<Rightarrow> (scan_state \<times> nat) option" where
  "scan_single_finobt_chunk mp agno rp suspect0 st0 =
     (let ino = ir_startino rp;
          off = XFS_AGINO_TO_OFFSET mp ino;
          lino = XFS_AGINO_TO_INO mp agno ino
      in case verify_single_ino_chunk_align mp agno FINOBT rp suspect0 st0 of
        (st1, suspect1, skip) \<Rightarrow>
          if skip then Some (st1, suspect1)
          else
            (case (if off = 0 \<and> suspect1 = 0 then finobt_chunk_blocks mp agno rp 0 suspect1 st1
                   else Some (False, suspect1, st1)) of
               None \<Rightarrow> None
             | Some (returned, suspect2, st2) \<Rightarrow>
                 if returned then Some (st2, suspect2)
                 else
                   (case find_inode_rec_range st2 agno ino (u32 (ino + XFS_INODES_PER_CHUNK)) of
                      Some first_rec \<Rightarrow>
                        if suspect2 \<noteq> 0 then Some (st2, suspect2)
                        else if ino_startnum first_rec \<noteq> ino then
                          Some (do_warn ''finobt rec does not match existing rec''
                                  [lino, agno, ino, agno, ino_startnum first_rec] st2,
                                suspect2 + 1)
                        else
                          (case foldl (finobt_compare_step mp rp first_rec) (suspect2, 0, 0)
                                  [0..<XFS_INODES_PER_CHUNK] of
                             (suspect3, nfree, ninodes) \<Rightarrow>
                               Some (check_freecount mp agno rp nfree ninodes st2, suspect3))
                    | None \<Rightarrow>
                        (case import_single_ino_chunk mp agno FINOBT rp suspect2
                                (do_warn ''undiscovered finobt record'' [lino, agno, ino] st2) of
                           (st3, suspect3, nfree, ninodes) \<Rightarrow>
                             Some (check_freecount mp agno rp nfree ninodes st3, suspect3)))))"

text \<open>The numeric test of lines 835-853: the first or the last inode of the
  chunk is not a valid inode number of the AG.\<close>

definition out_of_bounds :: "mount \<Rightarrow> nat \<Rightarrow> nat \<Rightarrow> bool" where
  "out_of_bounds mp agno ino \<longleftrightarrow>
     verify_aginum mp agno ino \<or> verify_aginum mp agno (u32 (ino + XFS_INODES_PER_CHUNK - 1))"

section \<open>AG headers, the disk and the AGFL walk\<close>

text \<open>The fields of the AGF and AGI headers that the scan reads, in host order;
  \<open>agf_roots\<close> and \<open>agf_levels\<close> are indexed by \<open>XFS_BTNUM_BNO\<close> and
  \<open>XFS_BTNUM_CNT\<close>.\<close>

record xfs_agf =
  agf_seqno :: nat
  agf_roots :: "nat \<Rightarrow> nat"
  agf_levels :: "nat \<Rightarrow> nat"
  agf_flfirst :: nat
  agf_fllast :: nat
  agf_flcount :: nat
  agf_freeblks :: nat
  agf_longest :: nat
  agf_btreeblks :: nat

record xfs_agi =
  agi_count :: nat
  agi_root :: nat
  agi_level :: nat
  agi_freecount :: nat
  agi_free_root :: nat
  agi_free_level :: nat
  agi_unlinked :: "nat \<Rightarrow> nat"


text \<open>
  What \<open>libxfs_readbuf\<close> returns for the blocks the scan asks for: \<open>None\<close> when the
  read fails, else \<open>b_error\<close> and the block as the visitor for that verifier views
  it. Freespace and inode btree blocks are addressed by AG and AG block, the
  AGFL and the three headers by AG. \<open>verify_set_agheader\<close> (\<open>repair/agheader.c\<close>,
  not among the sources) is a parameter: the status bits it returns for an AG,
  as four flags; the AGF and AGI are read as it leaves them.
\<close>

record ag_status =
  XR_AG_SB_SEC :: bool
  XR_AG_SB :: bool
  XR_AG_AGF :: bool
  XR_AG_AGI :: bool

record disk =
  rd_allocbt :: "nat \<Rightarrow> nat \<Rightarrow> (b_error \<times> (nat \<times> nat) btree_block) option"
  rd_inobt :: "nat \<Rightarrow> nat \<Rightarrow> (b_error \<times> xfs_inobt_rec btree_block) option"
  rd_agfl :: "nat \<Rightarrow> (b_error \<times> (nat \<Rightarrow> nat)) option"
  rd_sb :: "nat \<Rightarrow> b_error option"
  rd_agf :: "nat \<Rightarrow> (b_error \<times> xfs_agf) option"
  rd_agi :: "nat \<Rightarrow> (b_error \<times> xfs_agi) option"
  verify_set_agheader :: "nat \<Rightarrow> ag_status"

text \<open>
  The loop \<open>for (;;)\<close> of \<open>scan_freelist\<close> (lines 1452-1464): \<open>i\<close> is the slot of the
  free list, \<open>count\<close> the blocks walked so far. \<open>None\<close> when the loop never ends;
  a slot outside the free list is a read out of bounds.
\<close>

definition agfl_visit :: "mount \<Rightarrow> nat \<Rightarrow> nat \<Rightarrow> scan_state \<Rightarrow> scan_state" where
  "agfl_visit mp agno bno st =
     (if verify_agbno mp agno bno then bmap_set agno bno XR_E_FREE st
      else do_warn ''bad agbno in agfl'' [bno, agno] st)"

partial_function (option) agfl_walk ::
  "mount \<Rightarrow> nat \<Rightarrow> (nat \<Rightarrow> nat) \<Rightarrow> nat \<Rightarrow> nat \<Rightarrow> nat \<Rightarrow> scan_state
     \<Rightarrow> (fatal \<times> scan_state + nat \<times> scan_state) option" where
  "agfl_walk mp agno freelist fllast i count st =
     (if agfl_size mp \<le> i then Some (Inl (Out_of_bounds (int i), st))
      else if i = fllast then Some (Inr (count + 1, agfl_visit mp agno (freelist i) st))
      else agfl_walk mp agno freelist fllast (if i + 1 = agfl_size mp then 0 else i + 1)
             (count + 1) (agfl_visit mp agno (freelist i) st))"

text \<open>\<open>scan_freelist\<close> (lines 1406-1473).\<close>

definition scan_freelist :: "mount \<Rightarrow> disk \<Rightarrow> xfs_agf \<Rightarrow> scan_state \<Rightarrow> scan_result" where
  "scan_freelist mp dsk agf st =
     (let agno = agf_seqno agf;
          st1 = (if sb_block mp \<noteq> agfl_block mp \<and> agf_block mp \<noteq> agfl_block mp \<and>
                    agi_block mp \<noteq> agfl_block mp
                 then bmap_set agno (agfl_block mp) XR_E_FS_MAP st else st)
      in if agf_flcount agf = 0 then Inr st1
         else case rd_agfl dsk agno of
           None \<Rightarrow> Inl (Do_abort ''can't read agfl block for ag'' [agno], st1)
         | Some (err, freelist) \<Rightarrow>
             (let st2 = (if err = EFSBADCRC then do_warn ''agfl has bad CRC for ag'' [agno] st1
                         else st1)
              in if no_modify mp \<and>
                    (agf_flfirst agf \<ge> agfl_size mp \<or> agf_fllast agf \<ge> agfl_size mp)
                 then Inr (do_warn ''agf freelist blocks bad, skipping freelist scan''
                             [agf_flfirst agf] st2)
                 else case agfl_walk mp agno freelist (agf_fllast agf) (agf_flfirst agf) 0 st2 of
                   None \<Rightarrow> Inl (Never_returns, st2)
                 | Some (Inl f) \<Rightarrow> Inl f
                 | Some (Inr (count, st3)) \<Rightarrow>
                     (let st4 = (if count \<noteq> agf_flcount agf
                                 then do_warn ''freeblk count != flcount in ag''
                                        [count, agf_flcount agf, agno] st3
                                 else st3)
                      in Inr (st4\<lparr>cnts := (cnts st4)\<lparr>fdblocks := u64 (fdblocks (cnts st4) + count)\<rparr>\<rparr>))))"

text \<open>The slots the walk visits from \<open>flfirst\<close> to \<open>fllast\<close> in a free list of \<open>n\<close>
  slots, wrapping at the end of the list.\<close>

definition agfl_slots :: "nat \<Rightarrow> nat \<Rightarrow> nat \<Rightarrow> nat list" where
  "agfl_slots n flfirst fllast =
     (if flfirst \<le> fllast then [flfirst..<Suc fllast] else [flfirst..<n] @ [0..<Suc fllast])"

section \<open>The short-tree walker and the freespace visitor\<close>

text \<open>
  \<open>scan_sbtree\<close> (lines 58-94): \<open>rd\<close> is the read of a block with the verifier
  \<open>ops\<close>, \<open>func\<close> the visitor. A failed read ends in \<open>do_error\<close>; a bad CRC or a
  corrupt block is warned about and makes the visitor run with \<open>suspect = 1\<close>.
  The block read is appended to \<open>reads\<close>.
\<close>

definition scan_sbtree ::
  "(nat \<Rightarrow> nat \<Rightarrow> (b_error \<times> 'r btree_block) option) \<Rightarrow> nat \<Rightarrow> int \<Rightarrow> nat \<Rightarrow> nat
     \<Rightarrow> ('r btree_block \<Rightarrow> int \<Rightarrow> nat \<Rightarrow> nat \<Rightarrow> nat \<Rightarrow> bool \<Rightarrow> nat \<Rightarrow> scan_state
           \<Rightarrow> scan_result)
     \<Rightarrow> bool \<Rightarrow> nat \<Rightarrow> scan_state \<Rightarrow> scan_result" where
  "scan_sbtree rd root nlevels agno suspect func isroot magic st =
     (case rd agno root of
        None \<Rightarrow> Inl (Do_error ''can't read btree block'' [agno, root], st)
      | Some (err, block) \<Rightarrow>
          if err = EFSBADCRC \<or> err = EFSCORRUPTED then
            func block (nlevels - 1) root agno 1 isroot magic
              (do_warn ''btree block is suspect, error'' [agno, root]
                 (st\<lparr>reads := reads st @ [(agno, root)]\<rparr>))
          else
            func block (nlevels - 1) root agno suspect isroot magic
              (st\<lparr>reads := reads st @ [(agno, root)]\<rparr>))"

lemma scan_sbtree_cong [fundef_cong]:
  assumes "rd = rd'" "root = root'" "nlevels = nlevels'" "agno = agno'" "suspect = suspect'"
    "isroot = isroot'" "magic = magic'" "st = st'"
    and "\<And>err block s st1. rd' agno' root' = Some (err, block) \<Longrightarrow> s = suspect' \<or> s = 1 \<Longrightarrow>
           func block (nlevels' - 1) root' agno' s isroot' magic' st1 =
           func' block (nlevels' - 1) root' agno' s isroot' magic' st1"
  shows "scan_sbtree rd root nlevels agno suspect func isroot magic st =
         scan_sbtree rd' root' nlevels' agno' suspect' func' isroot' magic' st'"
  using assms by (auto simp: scan_sbtree_def split: option.splits)

text \<open>The record count a visitor works with: \<open>bb_numrecs\<close> cut down to the
  maximum and, off the root, raised to the minimum; with the number of header
  errors this adds.\<close>

definition clamp_numrecs :: "nat \<Rightarrow> nat \<Rightarrow> bool \<Rightarrow> nat \<Rightarrow> nat \<times> nat" where
  "clamp_numrecs mxr mnr isroot numrecs =
     (let n1 = (if numrecs > mxr then mxr else numrecs);
          e1 = (if numrecs > mxr then 1 else 0 :: nat);
          n2 = (if \<not> isroot \<and> n1 < mnr then mnr else n1);
          e2 = (if \<not> isroot \<and> n1 < mnr then e1 + 1 else e1)
      in (n2, e2))"

definition bt_name :: "nat \<Rightarrow> string" where
  "bt_name magic = (if is_bno_magic magic then ''bno'' else if is_cnt_magic magic then ''cnt''
                    else ''(unknown)'')"

text \<open>
  \<open>scan_allocbt\<close>, lines 560-597: the checks of the magic number and the level,
  the count of the block, and the claim of the block in the block-state map.
  \<open>Inl\<close> is the state at a \<open>return\<close>, \<open>Inr\<close> the state and \<open>hdr_errors\<close> when the
  visitor goes on.
\<close>

definition allocbt_header ::
  "(nat \<times> nat) btree_block \<Rightarrow> int \<Rightarrow> nat \<Rightarrow> nat \<Rightarrow> nat \<Rightarrow> bool \<Rightarrow> nat \<Rightarrow> scan_state
     \<Rightarrow> scan_state + scan_state \<times> nat" where
  "allocbt_header block level bno agno suspect isroot magic st =
     (let bad_magic = (bb_magic block \<noteq> magic);
          st1 = (if bad_magic
                 then do_warn (''bad magic # in bt block, '' @ bt_name magic) [bb_magic block, agno, bno] st
                 else st)
      in if bad_magic \<and> suspect \<noteq> 0 then Inl st1
         else
           (let st2 = (if \<not> isroot
                       then st1\<lparr>cnts := (cnts st1)\<lparr>agfbtreeblks := u64 (agfbtreeblks (cnts st1) + 1),
                                                    fdblocks := u64 (fdblocks (cnts st1) + 1)\<rparr>\<rparr>
                       else st1);
                bad_level = (int (bb_level block) \<noteq> level);
                st3 = (if bad_level
                       then do_warn (''expected level, got, in bt block, '' @ bt_name magic)
                              [bb_level block, agno, bno] st2
                       else st2)
            in if bad_level \<and> suspect \<noteq> 0 then Inl st3
               else if get_bmap (ag_bmap st3) agno bno \<noteq> XR_E_UNKNOWN then
                 Inl (do_warn (''freespace btree block claimed, '' @ bt_name magic)
                        [agno, bno, suspect] (bmap_set agno bno XR_E_MULT st3))
               else Inr (bmap_set agno bno XR_E_FS_MAP st3,
                         (if bad_magic then 1 else 0) + (if bad_level then 1 else 0))))"

text \<open>Lines 601-692: a leaf. The count is clamped, a header error is warned
  about, and the records are processed.\<close>

definition allocbt_leaf_block ::
  "mount \<Rightarrow> (nat \<times> nat) btree_block \<Rightarrow> nat \<Rightarrow> nat \<Rightarrow> bool \<Rightarrow> nat \<Rightarrow> nat \<Rightarrow> scan_state
     \<Rightarrow> scan_state" where
  "allocbt_leaf_block mp block bno agno isroot magic hdr_errors st =
     (case clamp_numrecs (m_alloc_mxr mp 0) (m_alloc_mnr mp 0) isroot (bb_numrecs block) of
        (numrecs, e) \<Rightarrow>
          allocbt_leaf mp magic agno bno (bb_rec block) numrecs
            (if hdr_errors + e \<noteq> 0
             then do_warn (''bad btree nrecs in bt block, '' @ bt_name magic)
                    [bb_numrecs block, m_alloc_mnr mp 0, m_alloc_mxr mp 0, agno, bno] st
             else st))"

text \<open>
  Lines 697-723: an interior node before its children. \<open>Inl\<close> is the state at
  the \<open>return\<close> of line 719; \<open>Inr\<close> the state, the \<open>suspect\<close> handed to the
  children and the number of pointers to follow.
\<close>

definition allocbt_interior ::
  "mount \<Rightarrow> (nat \<times> nat) btree_block \<Rightarrow> nat \<Rightarrow> nat \<Rightarrow> nat \<Rightarrow> bool \<Rightarrow> nat \<Rightarrow> nat \<Rightarrow> scan_state
     \<Rightarrow> scan_state + scan_state \<times> nat \<times> nat" where
  "allocbt_interior mp block bno agno suspect isroot magic hdr_errors st =
     (case clamp_numrecs (m_alloc_mxr mp 1) (m_alloc_mnr mp 1) isroot (bb_numrecs block) of
        (numrecs, e) \<Rightarrow>
          if hdr_errors + e \<noteq> 0 then
            (let st1 = do_warn (''bad btree nrecs in bt block, '' @ bt_name magic)
                         [bb_numrecs block, m_alloc_mnr mp 1, m_alloc_mxr mp 1, agno, bno] st
             in if suspect \<noteq> 0 then Inl st1 else Inr (st1, suspect + 1, numrecs))
          else if suspect \<noteq> 0 then Inr (st, 0, numrecs)
          else Inr (st, suspect, numrecs))"

text \<open>The measure under which the visitors end: the level while it is not
  negative; below that a visitor goes on only when it is not suspect, and its
  children then are.\<close>

definition walk_measure :: "int \<Rightarrow> nat \<Rightarrow> nat" where
  "walk_measure level suspect =
     (if 0 \<le> level then nat level + 2 else if suspect = 0 then 1 else 0)"

lemma allocbt_header_Inr:
  "allocbt_header block level bno agno suspect isroot magic st = Inr (st4, h) \<Longrightarrow>
   (h = 0 \<longrightarrow> int (bb_level block) = level \<and> bb_magic block = magic) \<and> (h \<noteq> 0 \<longrightarrow> suspect = 0)"
  by (auto simp: allocbt_header_def Let_def split: if_splits)

lemma allocbt_interior_Inr:
  "allocbt_interior mp block bno agno suspect isroot magic h st = Inr (st5, s', n) \<Longrightarrow>
   h \<noteq> 0 \<longrightarrow> s' = 1"
  by (auto simp: allocbt_interior_def Let_def split: if_splits prod.splits)

lemma walk_measure_child:
  assumes "level \<noteq> 0" "h = 0 \<longrightarrow> int bl = level" "h \<noteq> 0 \<longrightarrow> suspect = 0" "h \<noteq> 0 \<longrightarrow> s' = 1"
    "s'' = s' \<or> s'' = 1"
  shows "walk_measure (level - 1) s'' < walk_measure level suspect"
  using assms by (auto simp: walk_measure_def split: if_splits)

function scan_allocbt ::
  "mount \<Rightarrow> disk \<Rightarrow> (nat \<times> nat) btree_block \<Rightarrow> int \<Rightarrow> nat \<Rightarrow> nat \<Rightarrow> nat \<Rightarrow> bool \<Rightarrow> nat
     \<Rightarrow> scan_state \<Rightarrow> scan_result" where
  "scan_allocbt mp dsk block level bno agno suspect isroot magic st =
     (if \<not> is_bno_magic magic \<and> \<not> is_cnt_magic magic then Inl (Assert_failed, st)
      else case allocbt_header block level bno agno suspect isroot magic st of
        Inl st' \<Rightarrow> Inr st'
      | Inr (st4, hdr_errors) \<Rightarrow>
          if level = 0 then Inr (allocbt_leaf_block mp block bno agno isroot magic hdr_errors st4)
          else case allocbt_interior mp block bno agno suspect isroot magic hdr_errors st4 of
            Inl st' \<Rightarrow> Inr st'
          | Inr (st5, suspect', numrecs) \<Rightarrow>
              foldl (\<lambda>acc i. case acc of
                        Inl e \<Rightarrow> Inl e
                      | Inr s \<Rightarrow>
                          if bb_ptr block i \<noteq> 0 \<and> verify_agbno mp agno (bb_ptr block i)
                          then scan_sbtree (rd_allocbt dsk) (bb_ptr block i) level agno suspect'
                                 (scan_allocbt mp dsk) False magic s
                          else Inr s)
                (Inr st5) [0..<numrecs])"
  by pat_completeness auto
termination
proof (relation "measure (\<lambda>(mp, dsk, block, level, bno, agno, suspect, isroot, magic, st).
                            walk_measure level suspect)", goal_cases)
  case 1
  show ?case by simp
next
  case (2 mp dsk block level bno agno suspect isroot magic st b st4 h ba st5 ya s' n a xc bb
          err blocka s)
  from 2(2,3) have hd: "allocbt_header block level bno agno suspect isroot magic st = Inr (st4, h)"
    by simp
  from 2(5,6,7) have it: "allocbt_interior mp block bno agno suspect isroot magic h st4 = Inr (st5, s', n)"
    by simp
  from walk_measure_child[OF 2(4) _ _ allocbt_interior_Inr[OF it] 2(12), of "bb_level block"]
    allocbt_header_Inr[OF hd]
  show ?case by simp
qed

declare scan_allocbt.simps [simp del]

section \<open>The inode-tree visitor \<open>scan_inobt\<close>\<close>

definition XFS_IBT_MAGIC :: nat where "XFS_IBT_MAGIC = 0x49414254"
definition XFS_IBT_CRC_MAGIC :: nat where "XFS_IBT_CRC_MAGIC = 0x49414233"

definition is_ibt_magic :: "nat \<Rightarrow> bool" where
  "is_ibt_magic magic \<longleftrightarrow> magic = XFS_IBT_MAGIC \<or> magic = XFS_IBT_CRC_MAGIC"

text \<open>An \<open>int\<close> read from 32 unsigned bits and widened to 64 unsigned bits, as in
  \<open>agcnts->ifreecount += freecount\<close>; and the same bits read as an \<open>int\<close>.\<close>

definition sext32 :: "nat \<Rightarrow> nat" where
  "sext32 x = (if x < 2 ^ 31 then x else x + 2 ^ 64 - 2 ^ 32)"


definition set_bad_ino_btree :: "scan_state \<Rightarrow> scan_state" where
  "set_bad_ino_btree st = st\<lparr>bad_ino_btree := True\<rparr>"

text \<open>
  \<open>scan_inobt\<close>, lines 1258-1293: the checks of the magic number and the level
  and the claim of the block, which goes on after a conflict. \<open>Inl\<close> is the
  state at a \<open>return\<close>, \<open>Inr\<close> the state and \<open>hdr_errors\<close>.
\<close>

definition inobt_claim :: "nat \<Rightarrow> nat \<Rightarrow> nat \<Rightarrow> scan_state \<Rightarrow> scan_state" where
  "inobt_claim agno bno suspect st =
     (case get_bmap (ag_bmap st) agno bno of
        XR_E_UNKNOWN \<Rightarrow> bmap_set agno bno XR_E_FS_MAP st
      | XR_E_FREE1 \<Rightarrow> bmap_set agno bno XR_E_FS_MAP st
      | XR_E_FREE \<Rightarrow> bmap_set agno bno XR_E_FS_MAP st
      | _ \<Rightarrow> do_warn ''inode btree block claimed'' [agno, bno, suspect]
               (bmap_set agno bno XR_E_MULT st))"

definition inobt_header ::
  "xfs_inobt_rec btree_block \<Rightarrow> int \<Rightarrow> nat \<Rightarrow> nat \<Rightarrow> nat \<Rightarrow> nat \<Rightarrow> scan_state
     \<Rightarrow> scan_state + scan_state \<times> nat" where
  "inobt_header block level bno agno suspect magic st =
     (let bad_magic = (bb_magic block \<noteq> magic);
          st1 = (if bad_magic
                 then set_bad_ino_btree
                        (do_warn ''bad magic # in inobt block'' [bb_magic block, agno, bno] st)
                 else st)
      in if bad_magic \<and> suspect \<noteq> 0 then Inl st1
         else
           (let bad_level = (int (bb_level block) \<noteq> level);
                st2 = (if bad_level
                       then set_bad_ino_btree
                              (do_warn ''expected level, got, in inobt block''
                                 [bb_level block, agno, bno] st1)
                       else st1)
            in if bad_level \<and> suspect \<noteq> 0 then Inl st2
               else Inr (inobt_claim agno bno suspect st2,
                         (if bad_magic then 1 else 0) + (if bad_level then 1 else 0))))"

text \<open>One record of a leaf (the body of the loop of lines 1329-1360); the
  accumulator is the state and \<open>suspect\<close>, or the way the process ended.\<close>

definition inobt_rec ::
  "mount \<Rightarrow> nat \<Rightarrow> nat \<Rightarrow> xfs_inobt_rec \<Rightarrow> (fatal \<times> scan_state) + (scan_state \<times> nat)
     \<Rightarrow> (fatal \<times> scan_state) + (scan_state \<times> nat)" where
  "inobt_rec mp agno magic rp acc =
     (case acc of
        Inl e \<Rightarrow> Inl e
      | Inr (st, suspect) \<Rightarrow>
          (let freecount = inorec_get_freecount mp rp in
           if is_ibt_magic magic then
             (let icount = (if hassparseinodes mp then ir_count rp else XFS_INODES_PER_CHUNK);
                  c = cnts st;
                  st1 = st\<lparr>cnts := c\<lparr>agicount := u32 (agicount c + icount),
                                       agifreecount := u32 (agifreecount c + freecount),
                                       ifreecount := u64 (ifreecount c + sext32 freecount)\<rparr>\<rparr>
              in case scan_single_ino_chunk mp agno rp suspect st1 of
                   None \<Rightarrow> Inl (Never_returns, st1)
                 | Some r \<Rightarrow> Inr r)
           else
             (let c = cnts st;
                  st1 = st\<lparr>cnts := c\<lparr>fibtfreecount := u32 (fibtfreecount c + freecount)\<rparr>\<rparr>
              in case scan_single_finobt_chunk mp agno rp suspect st1 of
                   None \<Rightarrow> Inl (Never_returns, st1)
                 | Some r \<Rightarrow> Inr r)))"

text \<open>Lines 1300-1366: a leaf.\<close>

definition inobt_leaf_block ::
  "mount \<Rightarrow> xfs_inobt_rec btree_block \<Rightarrow> nat \<Rightarrow> nat \<Rightarrow> nat \<Rightarrow> bool \<Rightarrow> nat \<Rightarrow> nat
     \<Rightarrow> scan_state \<Rightarrow> scan_result" where
  "inobt_leaf_block mp block bno agno suspect isroot magic hdr_errors st =
     (case clamp_numrecs (m_inobt_mxr mp 0) (m_inobt_mnr mp 0) isroot (bb_numrecs block) of
        (numrecs, e) \<Rightarrow>
          (case foldl (\<lambda>acc i. inobt_rec mp agno magic (bb_rec block i) acc)
                  (if hdr_errors + e \<noteq> 0
                   then Inr (do_warn ''dubious inode btree block header'' [agno, bno]
                               (set_bad_ino_btree st), suspect + 1)
                   else Inr (st, suspect))
                  [0..<numrecs] of
             Inl e \<Rightarrow> Inl e
           | Inr (st', suspect') \<Rightarrow>
               Inr (if suspect' \<noteq> 0 then set_bad_ino_btree st' else st')))"

text \<open>Lines 1371-1395: an interior node before its children, with the result
  of \<open>allocbt_interior\<close>.\<close>

definition inobt_interior ::
  "mount \<Rightarrow> xfs_inobt_rec btree_block \<Rightarrow> nat \<Rightarrow> bool \<Rightarrow> nat \<Rightarrow> scan_state
     \<Rightarrow> scan_state + scan_state \<times> nat \<times> nat" where
  "inobt_interior mp block suspect isroot hdr_errors st =
     (case clamp_numrecs (m_inobt_mxr mp 1) (m_inobt_mnr mp 1) isroot (bb_numrecs block) of
        (numrecs, e) \<Rightarrow>
          (let suspect1 = (if suspect \<noteq> 0 \<and> hdr_errors + e = 0 then 0 else suspect)
           in if hdr_errors + e \<noteq> 0 then
                (if suspect1 \<noteq> 0 then Inl (set_bad_ino_btree st)
                 else Inr (set_bad_ino_btree st, suspect1 + 1, numrecs))
              else Inr (st, suspect1, numrecs)))"

lemma inobt_header_Inr:
  "inobt_header block level bno agno suspect magic st = Inr (st4, h) \<Longrightarrow>
   (h = 0 \<longrightarrow> int (bb_level block) = level \<and> bb_magic block = magic) \<and> (h \<noteq> 0 \<longrightarrow> suspect = 0)"
  by (auto simp: inobt_header_def Let_def split: if_splits)

lemma inobt_interior_Inr:
  "inobt_interior mp block suspect isroot h st = Inr (st5, s', n) \<Longrightarrow> h \<noteq> 0 \<longrightarrow> s' = 1"
  by (auto simp: inobt_interior_def Let_def split: if_splits prod.splits)

function scan_inobt ::
  "mount \<Rightarrow> disk \<Rightarrow> xfs_inobt_rec btree_block \<Rightarrow> int \<Rightarrow> nat \<Rightarrow> nat \<Rightarrow> nat \<Rightarrow> bool \<Rightarrow> nat
     \<Rightarrow> scan_state \<Rightarrow> scan_result" where
  "scan_inobt mp dsk block level bno agno suspect isroot magic st =
     (case inobt_header block level bno agno suspect magic st of
        Inl st' \<Rightarrow> Inr st'
      | Inr (st4, hdr_errors) \<Rightarrow>
          if level = 0 then inobt_leaf_block mp block bno agno suspect isroot magic hdr_errors st4
          else case inobt_interior mp block suspect isroot hdr_errors st4 of
            Inl st' \<Rightarrow> Inr st'
          | Inr (st5, suspect', numrecs) \<Rightarrow>
              foldl (\<lambda>acc i. case acc of
                        Inl e \<Rightarrow> Inl e
                      | Inr s \<Rightarrow>
                          if bb_ptr block i \<noteq> 0 \<and> verify_agbno mp agno (bb_ptr block i)
                          then scan_sbtree (rd_inobt dsk) (bb_ptr block i) level agno suspect'
                                 (scan_inobt mp dsk) False magic s
                          else Inr s)
                (Inr st5) [0..<numrecs])"
  by pat_completeness auto
termination
proof (relation "measure (\<lambda>(mp, dsk, block, level, bno, agno, suspect, isroot, magic, st).
                            walk_measure level suspect)", goal_cases)
  case 1
  show ?case by simp
next
  case (2 mp dsk block level bno agno suspect isroot magic st b st4 h ba st5 ya s' n a xc bb
          err blocka s)
  from 2(1,2) have hd: "inobt_header block level bno agno suspect magic st = Inr (st4, h)"
    by simp
  from 2(4,5,6) have it: "inobt_interior mp block suspect isroot h st4 = Inr (st5, s', n)"
    by simp
  from walk_measure_child[OF 2(3) _ _ inobt_interior_Inr[OF it] 2(11), of "bb_level block"]
    inobt_header_Inr[OF hd]
  show ?case by simp
qed

declare scan_inobt.simps [simp del]

section \<open>The AG scanner and the dispatcher\<close>









text \<open>
  \<open>scan_ag\<close> (lines 1593-1749). The status bits of \<open>verify_set_agheader\<close> are read
  as four flags; the buffers' dirty flags and their write-back are left out, and
  the allocation of the superblock copy is taken to succeed.
\<close>

definition agheader_warnings :: "mount \<Rightarrow> ag_status \<Rightarrow> nat \<Rightarrow> scan_state \<Rightarrow> scan_state" where
  "agheader_warnings mp status agno st =
     (let st1 = (if XR_AG_SB status
                 then do_warn (if no_modify mp then ''would reset bad sb for ag''
                               else ''reset bad sb for ag'') [agno] st
                 else st);
          st2 = (if XR_AG_AGF status
                 then do_warn (if no_modify mp then ''would reset bad agf for ag''
                               else ''reset bad agf for ag'') [agno] st1
                 else st1)
      in if XR_AG_AGI status
         then do_warn (if no_modify mp then ''would reset bad agi for ag''
                       else ''reset bad agi for ag'') [agno] st2
         else st2)"






section \<open>The long-tree walker and the extent-tree visitor\<close>

definition NULLFSBLOCK :: nat where "NULLFSBLOCK = 2 ^ 64 - 1"
definition NULLFILEOFF :: nat where "NULLFILEOFF = 2 ^ 64 - 1"
definition XFS_BMAP_MAGIC :: nat where "XFS_BMAP_MAGIC = 0x424d4150"
definition XFS_BMAP_CRC_MAGIC :: nat where "XFS_BMAP_CRC_MAGIC = 0x424d4133"
definition XFS_DATA_FORK :: nat where "XFS_DATA_FORK = 0"

definition XFS_FSB_TO_AGNO :: "mount \<Rightarrow> nat \<Rightarrow> nat" where
  "XFS_FSB_TO_AGNO mp fsbno = fsbno div 2 ^ sb_agblklog mp"

definition XFS_FSB_TO_AGBNO :: "mount \<Rightarrow> nat \<Rightarrow> nat" where
  "XFS_FSB_TO_AGBNO mp fsbno = fsbno mod 2 ^ sb_agblklog mp"

text \<open>One level of the cursor \<open>bmap_cursor_t\<close>, and a long-form btree block: the
  header fields in host order, whether its UUID is the filesystem's, and the key
  and pointer areas by slot (the records of a leaf are read by routines outside
  \<open>scan.c\<close> only).\<close>

record bm_level =
  c_fsbno :: nat
  c_left_fsbno :: nat
  c_right_fsbno :: nat
  c_first_key :: nat
  c_last_key :: nat

record bmbt_block =
  lb_magic :: nat
  lb_level :: nat
  lb_numrecs :: nat
  lb_leftsib :: nat
  lb_rightsib :: nat
  lb_owner :: nat
  lb_blkno :: nat
  lb_uuid_ok :: bool
  lb_key :: "nat \<Rightarrow> nat"
  lb_ptr :: "nat \<Rightarrow> nat"

text \<open>
  What a walk of one extent tree works on besides the scan state: the totals
  \<open>*tot\<close> and \<open>*nex\<close>, the cursor by level, the file's block map (opaque here) and
  the blocks handed to \<open>libxfs_writebuf\<close>.
\<close>

record lwalk =
  w_st :: scan_state
  w_tot :: nat
  w_nex :: nat
  w_cursor :: "nat \<Rightarrow> bm_level"
  w_blkmap :: "nat list"
  w_wrote :: "nat list"

text \<open>
  What the visitor takes from outside \<open>scan.c\<close>: the read of an extent-tree block
  by filesystem block number; \<open>process_bmbt_reclist\<close> and \<open>scan_bmbt_reclist\<close>
  (\<open>repair/dinode.c\<close>), which return an error flag and the walk as they leave it,
  the first with the first and last key of the leaf; the duplicate-extent
  searches; \<open>XFS_FSB_TO_DADDR\<close>; and the inode type \<open>XR_INO_RTDATA\<close>.
\<close>

record bmbt_env =
  rd_bmbt :: "nat \<Rightarrow> (b_error \<times> bmbt_block) option"
  process_bmbt_reclist ::
    "bmbt_block \<Rightarrow> nat \<Rightarrow> nat \<Rightarrow> nat \<Rightarrow> nat \<Rightarrow> lwalk \<Rightarrow> bool \<times> lwalk \<times> nat \<times> nat"
  scan_bmbt_reclist :: "bmbt_block \<Rightarrow> nat \<Rightarrow> nat \<Rightarrow> nat \<Rightarrow> nat \<Rightarrow> lwalk \<Rightarrow> bool \<times> lwalk"
  search_dup_extent :: "nat \<Rightarrow> nat \<Rightarrow> nat \<Rightarrow> bool"
  search_rt_dup_extent :: "nat \<Rightarrow> bool"
  XFS_FSB_TO_DADDR :: "nat \<Rightarrow> nat"
  XR_INO_RTDATA :: nat

definition lwarn :: "string \<Rightarrow> nat list \<Rightarrow> lwalk \<Rightarrow> lwalk" where
  "lwarn fmt args w = w\<lparr>w_st := do_warn fmt args (w_st w)\<rparr>"

definition lread :: "mount \<Rightarrow> nat \<Rightarrow> lwalk \<Rightarrow> lwalk" where
  "lread mp root w =
     w\<lparr>w_st := (w_st w)\<lparr>reads := reads (w_st w) @
                 [(XFS_FSB_TO_AGNO mp root, XFS_FSB_TO_AGBNO mp root)]\<rparr>\<rparr>"

text \<open>The result of the visitor: the way the process ended, or the returned error
  flag, the out-parameter \<open>*dirty\<close> and the walk.\<close>

type_synonym bm_result = "fatal \<times> scan_state + bool \<times> bool \<times> lwalk"

text \<open>
  \<open>scan_lbtree\<close> (lines 99-168): \<open>Inr\<close> carries the returned flag and the walk. The
  block read is appended to \<open>reads\<close>; a block handed to \<open>libxfs_writebuf\<close> is noted
  in the walk, the disk stays as it was read.
\<close>

definition scan_lbtree ::
  "mount \<Rightarrow> bmbt_env \<Rightarrow> nat \<Rightarrow> int
     \<Rightarrow> (bmbt_block \<Rightarrow> int \<Rightarrow> nat \<Rightarrow> nat \<Rightarrow> nat \<Rightarrow> nat \<Rightarrow> bool \<Rightarrow> bool \<Rightarrow> nat \<Rightarrow> lwalk \<Rightarrow> bm_result)
     \<Rightarrow> nat \<Rightarrow> nat \<Rightarrow> nat \<Rightarrow> bool \<Rightarrow> bool \<Rightarrow> nat \<Rightarrow> lwalk
     \<Rightarrow> fatal \<times> scan_state + bool \<times> lwalk" where
  "scan_lbtree mp env root nlevels func type whichfork ino isroot check_dups magic w =
     (case rd_bmbt env root of
        None \<Rightarrow> Inl (Do_error ''can't read btree block''
                       [XFS_FSB_TO_AGNO mp root, XFS_FSB_TO_AGBNO mp root], w_st w)
      | Some (berr, block) \<Rightarrow>
          (case func block (nlevels - 1) type whichfork root ino isroot check_dups magic
                  (if berr = EFSBADCRC
                   then lwarn ''btree block is suspect, error''
                          [XFS_FSB_TO_AGNO mp root, XFS_FSB_TO_AGBNO mp root] (lread mp root w)
                   else lread mp root w) of
             Inl e \<Rightarrow> Inl e
           | Inr (err, dirty, w2) \<Rightarrow>
               if dirty \<and> no_modify mp then Inl (Assert_failed, w_st w2)
               else if (dirty \<or> berr = EFSBADCRC) \<and> \<not> no_modify mp
               then Inr (err, w2\<lparr>w_wrote := w_wrote w2 @ [root]\<rparr>)
               else Inr (err, w2)))"

lemma scan_lbtree_cong [fundef_cong]:
  assumes "mp = mp'" "env = env'" "root = root'" "nlevels = nlevels'" "type = type'"
    "whichfork = whichfork'" "ino = ino'" "isroot = isroot'" "check_dups = check_dups'"
    "magic = magic'" "w = w'"
    and "\<And>berr block w1. rd_bmbt env' root' = Some (berr, block) \<Longrightarrow>
           func block (nlevels' - 1) type' whichfork' root' ino' isroot' check_dups' magic' w1 =
           func' block (nlevels' - 1) type' whichfork' root' ino' isroot' check_dups' magic' w1"
  shows "scan_lbtree mp env root nlevels func type whichfork ino isroot check_dups magic w =
         scan_lbtree mp' env' root' nlevels' func' type' whichfork' ino' isroot' check_dups' magic' w'"
  using assms by (auto simp: scan_lbtree_def split: option.splits)

text \<open>Lines 207-246: the checks of the header. \<open>Some\<close> is the walk at a
  \<open>return(1)\<close>, \<open>None\<close> means the header passed.\<close>

definition bmapbt_header ::
  "bmbt_env \<Rightarrow> bmbt_block \<Rightarrow> int \<Rightarrow> nat \<Rightarrow> nat \<Rightarrow> nat \<Rightarrow> lwalk \<Rightarrow> lwalk option" where
  "bmapbt_header env block level bno ino magic w =
     (if lb_magic block \<noteq> magic then
        Some (lwarn ''bad magic # in inode bmbt block'' [lb_magic block, ino, bno] w)
      else if int (lb_level block) \<noteq> level then
        Some (lwarn ''expected level, got, in inode bmbt block'' [lb_level block, ino, bno] w)
      else if magic = XFS_BMAP_CRC_MAGIC \<and> lb_owner block \<noteq> ino then
        Some (lwarn ''expected owner inode, got, bmbt block'' [ino, lb_owner block, bno] w)
      else if magic = XFS_BMAP_CRC_MAGIC \<and> lb_blkno block \<noteq> XFS_FSB_TO_DADDR env bno then
        Some (lwarn ''expected block, got, bmbt block''
                [XFS_FSB_TO_DADDR env bno, lb_blkno block, bno] w)
      else if magic = XFS_BMAP_CRC_MAGIC \<and> \<not> lb_uuid_ok block then
        Some (lwarn ''wrong FS UUID, bmbt block'' [bno] w)
      else None)"

text \<open>Lines 254-294: the sibling pointers against the cursor of the level.\<close>

definition bmapbt_siblings ::
  "bmbt_block \<Rightarrow> nat \<Rightarrow> nat \<Rightarrow> nat \<Rightarrow> lwalk \<Rightarrow> lwalk option" where
  "bmapbt_siblings block lev bno ino w =
     (let cur = w_cursor w lev in
      if c_fsbno cur \<noteq> NULLFSBLOCK then
        (if bno \<noteq> c_right_fsbno cur then
           Some (lwarn ''bad fwd (right) sibling pointer (saw, parent block says)''
                   [c_right_fsbno cur, bno, ino, c_fsbno cur] w)
         else if lb_leftsib block \<noteq> c_fsbno cur then
           Some (lwarn ''bad back (left) sibling pointer (saw, parent block says)''
                   [lb_leftsib block, c_fsbno cur, ino, bno] w)
         else None)
      else if lb_leftsib block \<noteq> NULLFSBLOCK then
        Some (lwarn ''bad back (left) sibling pointer (saw, should be NULL (0))''
                [lb_leftsib block, ino, bno] w)
      else None)"

text \<open>Lines 308-354: the claim of the node's own block in the block-state map.\<close>

definition bmapbt_claim :: "nat \<Rightarrow> nat \<Rightarrow> nat \<Rightarrow> nat \<Rightarrow> scan_state \<Rightarrow> scan_state" where
  "bmapbt_claim ino bno agno agbno st =
     (case get_bmap (ag_bmap st) agno agbno of
        XR_E_UNKNOWN \<Rightarrow> bmap_set agno agbno XR_E_INUSE st
      | XR_E_FREE1 \<Rightarrow> bmap_set agno agbno XR_E_INUSE st
      | XR_E_FREE \<Rightarrow> bmap_set agno agbno XR_E_INUSE st
      | XR_E_FS_MAP \<Rightarrow>
          do_warn ''inode bmap block claimed, state is'' [ino, bno]
            (bmap_set agno agbno XR_E_MULT st)
      | XR_E_INUSE \<Rightarrow>
          do_warn ''inode bmap block claimed, state is'' [ino, bno]
            (bmap_set agno agbno XR_E_MULT st)
      | XR_E_MULT \<Rightarrow>
          do_warn ''inode bmap block claimed, state is'' [ino, bno]
            (bmap_set agno agbno XR_E_MULT st)
      | XR_E_INUSE_FS \<Rightarrow>
          do_warn ''inode bmap block claimed, state is'' [ino, bno]
            (bmap_set agno agbno XR_E_MULT st)
      | _ \<Rightarrow> do_warn ''bad state, inode bmap block'' [ino, bno] st)"

text \<open>
  Lines 207-369, up to \<open>(*tot)++\<close>: the header, then in a normal scan the
  siblings, the cursor and the claim, in a duplicate scan the search of the
  block among the duplicate extents. \<open>Inl\<close> is the walk at a \<open>return(1)\<close>, \<open>Inr\<close>
  the walk with which the visitor goes on.
\<close>

definition bmapbt_enter ::
  "mount \<Rightarrow> bmbt_env \<Rightarrow> bmbt_block \<Rightarrow> int \<Rightarrow> nat \<Rightarrow> nat \<Rightarrow> nat \<Rightarrow> nat \<Rightarrow> bool \<Rightarrow> nat \<Rightarrow> lwalk
     \<Rightarrow> lwalk + lwalk" where
  "bmapbt_enter mp env block level type whichfork bno ino check_dups magic w =
     (case bmapbt_header env block level bno ino magic w of
        Some w' \<Rightarrow> Inl w'
      | None \<Rightarrow>
          if \<not> check_dups then
            (case bmapbt_siblings block (nat level) bno ino w of
               Some w' \<Rightarrow> Inl w'
             | None \<Rightarrow>
                 Inr (w\<lparr>w_cursor := (w_cursor w)(nat level :=
                          (w_cursor w (nat level))\<lparr>c_fsbno := bno,
                             c_left_fsbno := lb_leftsib block,
                             c_right_fsbno := lb_rightsib block\<rparr>),
                        w_st := bmapbt_claim ino bno (XFS_FSB_TO_AGNO mp bno)
                                  (XFS_FSB_TO_AGBNO mp bno) (w_st w)\<rparr>))
          else if type \<noteq> XR_INO_RTDATA env \<or> whichfork \<noteq> XFS_DATA_FORK then
            (if search_dup_extent env (XFS_FSB_TO_AGNO mp bno) (XFS_FSB_TO_AGBNO mp bno)
                  (XFS_FSB_TO_AGBNO mp bno + 1)
             then Inl w else Inr w)
          else (if search_rt_dup_extent env bno then Inl w else Inr w))"

text \<open>Lines 373-424: a leaf, entered with \<open>*tot\<close> already raised.\<close>

definition bmapbt_leaf ::
  "mount \<Rightarrow> bmbt_env \<Rightarrow> bmbt_block \<Rightarrow> nat \<Rightarrow> nat \<Rightarrow> nat \<Rightarrow> nat \<Rightarrow> bool \<Rightarrow> bool \<Rightarrow> lwalk
     \<Rightarrow> bool \<times> bool \<times> lwalk" where
  "bmapbt_leaf mp env block type whichfork bno ino isroot check_dups w =
     (let numrecs = lb_numrecs block in
      if numrecs > m_bmap_dmxr mp 0 \<or> (\<not> isroot \<and> numrecs < m_bmap_dmnr mp 0) then
        (True, False,
         lwarn ''inode, bad # of bmap records'' [ino, numrecs, m_bmap_dmnr mp 0, m_bmap_dmxr mp 0] w)
      else
        (let w1 = w\<lparr>w_nex := u64 (w_nex w + numrecs)\<rparr> in
         if \<not> check_dups then
           (case process_bmbt_reclist env block numrecs type ino whichfork w1 of
              (err, w2, first_key, last_key) \<Rightarrow>
                if err then (True, False, w2)
                else if first_key \<le> c_last_key (w_cursor w2 0) \<and>
                        c_last_key (w_cursor w2 0) \<noteq> NULLFILEOFF then
                  (True, False,
                   lwarn ''out-of-order bmap key (file offset) in inode, fsbno'' [ino, bno] w2)
                else
                  (False, False,
                   w2\<lparr>w_cursor := (w_cursor w2)(0 :=
                         (w_cursor w2 0)\<lparr>c_first_key := first_key, c_last_key := last_key\<rparr>)\<rparr>))
         else
           (case scan_bmbt_reclist env block numrecs type ino whichfork w1 of
              (err, w2) \<Rightarrow> (err, False, w2))))"

text \<open>The state of the loop over the children of an interior node (lines
  437-493): running with the walk, the key area of the block and \<open>*dirty\<close>; left
  by a \<open>return\<close>; or ended with the process.\<close>

datatype loop_state =
    Running lwalk "nat \<Rightarrow> nat" bool
  | Returned bool bool lwalk
  | Died fatal scan_state

text \<open>Lines 457-492: after a child was scanned without error, its first key,
  as the cursor has it, against the key the node keeps for it.\<close>

definition bmapbt_fix_key ::
  "mount \<Rightarrow> nat \<Rightarrow> nat \<Rightarrow> nat \<Rightarrow> bool \<Rightarrow> nat \<Rightarrow> lwalk \<Rightarrow> (nat \<Rightarrow> nat) \<Rightarrow> bool \<Rightarrow> loop_state" where
  "bmapbt_fix_key mp lev bno ino check_dups i w keys dirty =
     (let child_first = c_first_key (w_cursor w (lev - 1)) in
      if \<not> check_dups \<and> keys i \<noteq> child_first then
        (if \<not> no_modify mp then
           Running (lwarn ''correcting bt key (was, now) in inode, btree block''
                      [keys i, child_first, ino, bno] w)
             (keys(i := child_first)) True
         else
           Running (lwarn ''bad btree key (is, should be) in inode, btree block''
                      [keys i, child_first, ino, bno] w)
             keys dirty)
      else Running w keys dirty)"

text \<open>Lines 495-520: after the loop, the right sibling of the last child, and
  the keys of the level, read from the slots 0 and \<open>numrecs - 1\<close> of the key
  area, which has \<open>m_bmap_dmxr[1]\<close> slots.\<close>

definition key_at :: "mount \<Rightarrow> (nat \<Rightarrow> nat) \<Rightarrow> int \<Rightarrow> nat option" where
  "key_at mp keys i = (if 0 \<le> i \<and> i < int (m_bmap_dmxr mp 1) then Some (keys (nat i)) else None)"

definition bmapbt_finish ::
  "mount \<Rightarrow> nat \<Rightarrow> nat \<Rightarrow> nat \<Rightarrow> bool \<Rightarrow> lwalk \<Rightarrow> (nat \<Rightarrow> nat) \<Rightarrow> bool \<Rightarrow> bm_result" where
  "bmapbt_finish mp lev numrecs ino check_dups w keys dirty =
     (if \<not> check_dups \<and> c_right_fsbno (w_cursor w lev) = NULLFSBLOCK \<and>
         c_right_fsbno (w_cursor w (lev - 1)) \<noteq> NULLFSBLOCK then
        Inr (True, dirty,
             lwarn ''bad fwd (right) sibling pointer (saw, should be NULLFSBLOCK)''
               [c_right_fsbno (w_cursor w (lev - 1)), ino, c_fsbno (w_cursor w (lev - 1))] w)
      else if \<not> check_dups then
        (case key_at mp keys 0 of
           None \<Rightarrow> Inl (Out_of_bounds 0, w_st w)
         | Some k0 \<Rightarrow>
             (case key_at mp keys (int numrecs - 1) of
                None \<Rightarrow> Inl (Out_of_bounds (int numrecs - 1), w_st w)
              | Some kl \<Rightarrow>
                  Inr (False, dirty,
                       w\<lparr>w_cursor := (w_cursor w)(lev :=
                            (w_cursor w lev)\<lparr>c_first_key := k0, c_last_key := kl\<rparr>)\<rparr>)))
      else Inr (False, dirty, w))"

lemma bmapbt_enter_level:
  "bmapbt_enter mp env block level type whichfork bno ino check_dups magic w = Inr w1 \<Longrightarrow>
   int (lb_level block) = level"
  by (auto simp: bmapbt_enter_def bmapbt_header_def split: option.splits if_splits)

function scan_bmapbt ::
  "mount \<Rightarrow> bmbt_env \<Rightarrow> bmbt_block \<Rightarrow> int \<Rightarrow> nat \<Rightarrow> nat \<Rightarrow> nat \<Rightarrow> nat \<Rightarrow> bool \<Rightarrow> bool \<Rightarrow> nat
     \<Rightarrow> lwalk \<Rightarrow> bm_result" where
  "scan_bmapbt mp env block level type whichfork bno ino isroot check_dups magic w =
     (case bmapbt_enter mp env block level type whichfork bno ino check_dups magic w of
        Inl w' \<Rightarrow> Inr (True, False, w')
      | Inr w0 \<Rightarrow>
          if level = 0 then
            Inr (bmapbt_leaf mp env block type whichfork bno ino isroot check_dups
                   (w0\<lparr>w_tot := u64 (w_tot w0 + 1)\<rparr>))
          else if lb_numrecs block > m_bmap_dmxr mp 1 \<or>
                  (\<not> isroot \<and> lb_numrecs block < m_bmap_dmnr mp 1) then
            Inr (True, False,
                 lwarn ''inode, bad # of bmap records''
                   [ino, lb_numrecs block, m_bmap_dmnr mp 1, m_bmap_dmxr mp 1]
                   (w0\<lparr>w_tot := u64 (w_tot w0 + 1)\<rparr>))
          else
            (case foldl
                    (\<lambda>acc i. case acc of
                        Running w1 keys dirty \<Rightarrow>
                          if \<not> verify_dfsbno mp (lb_ptr block i) then
                            Returned True dirty
                              (lwarn ''bad bmap btree ptr in ino'' [lb_ptr block i, ino] w1)
                          else
                            (case scan_lbtree mp env (lb_ptr block i) level (scan_bmapbt mp env)
                                    type whichfork ino False check_dups magic w1 of
                               Inl (f, st) \<Rightarrow> Died f st
                             | Inr (err, w2) \<Rightarrow>
                                 if err then Returned True dirty w2
                                 else bmapbt_fix_key mp (nat level) bno ino check_dups i w2 keys dirty)
                      | Returned err dirty w1 \<Rightarrow> Returned err dirty w1
                      | Died f st \<Rightarrow> Died f st)
                    (Running (w0\<lparr>w_tot := u64 (w_tot w0 + 1)\<rparr>) (lb_key block) False)
                    [0..<lb_numrecs block] of
               Running w1 keys dirty \<Rightarrow>
                 bmapbt_finish mp (nat level) (lb_numrecs block) ino check_dups w1 keys dirty
             | Returned err dirty w1 \<Rightarrow> Inr (err, dirty, w1)
             | Died f st \<Rightarrow> Inl (f, st)))"
  by pat_completeness auto
termination
  apply (relation "measure (\<lambda>(mp, env, block, level, type, whichfork, bno, ino, isroot,
                              check_dups, magic, w). nat level)")
   apply simp
  apply (auto dest!: bmapbt_enter_level)
  done

declare scan_bmapbt.simps [simp del]

section \<open>Fixtures for concrete runs\<close>

text \<open>A small geometry (16 inodes per block, AGs of 1000 blocks), an empty scan
  state over a given block-state map, and a map with block 5 in \<open>FREE1\<close> and
  block 7 holding inodes.\<close>

definition demo_mount :: mount where
  "demo_mount = \<lparr> m_alloc_mxr = (\<lambda>l. 4), m_alloc_mnr = (\<lambda>l. 2),
      m_inobt_mxr = (\<lambda>l. 4), m_inobt_mnr = (\<lambda>l. 2),
      m_bmap_dmxr = (\<lambda>l. 4), m_bmap_dmnr = (\<lambda>l. 2),
      sb_agcount = 1, sb_agblklog = 10, sb_inopblock = 16, sb_inopblog = 4,
      sb_icount = 0, sb_ifree = 0, sb_fdblocks = 0,
      hascrc = False, hassparseinodes = False, hasfinobt = True, haslazysbcount = True,
      agfl_size = 8, sb_block = 0, agf_block = 1, agi_block = 2, agfl_block = 3,
      verify_agbno = (\<lambda>agno b. b < 1000),
      verify_aginum = (\<lambda>agno i. i = 0 \<or> 16000 \<le> i),
      verify_dfsbno = (\<lambda>b. b < 1000),
      inodes_per_block = 16, fs_aligned_inodes = False, fs_ino_alignment = 0,
      first_prealloc_ino = 0, last_prealloc_ino = 0, no_modify = True \<rparr>"

definition init_state :: "bmap \<Rightarrow> scan_state" where
  "init_state m = \<lparr> ag_bmap = m, sets = [], warns = [], reads = [], cnts = zero_cnts,
      bad_ino_btree = False, ino_tree = (\<lambda>a i. None), uncertain = [] \<rparr>"

definition demo_bmap :: bmap where
  "demo_bmap = (\<lambda>a x. if x = 5 then XR_E_FREE1 else if x = 7 then XR_E_INO else XR_E_UNKNOWN)"

text \<open>
  The reconciliation rule the leaf loop applies to block \<open>x\<close> of a record that
  starts at \<open>b\<close>, between the state \<open>st\<close> before the record and \<open>st'\<close> after it:
  \<open>FREE1\<close> becomes \<open>FREE\<close> under the by-count tree; \<open>UNKNOWN\<close> becomes \<open>FREE1\<close> at
  the first block of a run of unknown blocks and stays \<open>UNKNOWN\<close> at every
  later block of the run; a block in any other state keeps its state and a
  warning naming a range around it is emitted.
\<close>

definition free_rule :: "nat \<Rightarrow> nat \<Rightarrow> nat \<Rightarrow> nat \<Rightarrow> scan_state \<Rightarrow> scan_state \<Rightarrow> bool" where
  "free_rule magic agno b x st st' \<longleftrightarrow>
     (let m = ag_bmap st agno; m' = ag_bmap st' agno in
      (m x = XR_E_FREE1 \<and> is_cnt_magic magic \<longrightarrow> m' x = XR_E_FREE) \<and>
      (m x = XR_E_UNKNOWN \<and> (x = b \<or> m (x - 1) \<noteq> XR_E_UNKNOWN) \<longrightarrow> m' x = XR_E_FREE1) \<and>
      (m x = XR_E_UNKNOWN \<and> x \<noteq> b \<and> m (x - 1) = XR_E_UNKNOWN \<longrightarrow> m' x = XR_E_UNKNOWN) \<and>
      (m x \<noteq> XR_E_UNKNOWN \<and> \<not> (m x = XR_E_FREE1 \<and> is_cnt_magic magic) \<longrightarrow>
         m' x = m x \<and>
         (\<exists>lo hi. lo \<le> x \<and> x \<le> hi \<and>
            Warn ''block multiply claimed by space tree'' [agno, lo, hi] \<in> set (warns st'))))"

text \<open>An inode record with its first inode free, starting at a given inode.\<close>

definition demo_rec :: "nat \<Rightarrow> xfs_inobt_rec" where
  "demo_rec ino = \<lparr> ir_startino = ino, ir_u = 1, ir_free = 1 \<rparr>"

text \<open>
  Relations between the state before and after a scan of a free-inode record:
  every block keeps its state or goes from \<open>UNKNOWN\<close> or \<open>INUSE_FS\<close> to \<open>INO\<close>;
  the same with the inventory untouched and no warning lost; and the last
  warning being the one about a used block.
\<close>

definition only_ino_claims :: "scan_state \<Rightarrow> scan_state \<Rightarrow> bool" where
  "only_ino_claims st st' \<longleftrightarrow>
     (\<forall>a x. ag_bmap st' a x = ag_bmap st a x \<or>
        (ag_bmap st' a x = XR_E_INO \<and>
         (ag_bmap st a x = XR_E_UNKNOWN \<or> ag_bmap st a x = XR_E_INUSE_FS)))"







text \<open>A map with every block unknown, and the state of a block after a record
  scan that returned.\<close>

definition empty_bmap :: bmap where
  "empty_bmap = (\<lambda>a x. XR_E_UNKNOWN)"


text \<open>The walk over a list of slots, as a fold of the visit of one slot.\<close>

definition agfl_fold :: "mount \<Rightarrow> nat \<Rightarrow> (nat \<Rightarrow> nat) \<Rightarrow> nat list \<Rightarrow> scan_state \<Rightarrow> scan_state" where
  "agfl_fold mp agno freelist ks st = foldl (\<lambda>s k. agfl_visit mp agno (freelist k) s) st ks"

text \<open>What \<open>scan_freelist\<close> does before the walk (the mark on the AGFL block and
  the CRC warning) and after it (the count warning and the free-block total).\<close>

definition freelist_pre :: "mount \<Rightarrow> b_error \<Rightarrow> nat \<Rightarrow> scan_state \<Rightarrow> scan_state" where
  "freelist_pre mp err agno st =
     (let st1 = (if sb_block mp \<noteq> agfl_block mp \<and> agf_block mp \<noteq> agfl_block mp \<and>
                    agi_block mp \<noteq> agfl_block mp
                 then bmap_set agno (agfl_block mp) XR_E_FS_MAP st else st)
      in if err = EFSBADCRC then do_warn ''agfl has bad CRC for ag'' [agno] st1 else st1)"

definition freelist_post :: "nat \<Rightarrow> nat \<Rightarrow> nat \<Rightarrow> scan_state \<Rightarrow> scan_state" where
  "freelist_post agno count flcount st3 =
     (let st4 = (if count \<noteq> flcount
                 then do_warn ''freeblk count != flcount in ag'' [count, flcount, agno] st3
                 else st3)
      in st4\<lparr>cnts := (cnts st4)\<lparr>fdblocks := u64 (fdblocks (cnts st4) + count)\<rparr>\<rparr>)"

text \<open>An AGF that announces five free-list blocks while its free list, read from
  the disk, runs over the four slots 0 to 3 with the blocks 10 to 13; and what
  a run of the scan left in the total and in the map.\<close>

definition demo_agf :: xfs_agf where
  "demo_agf = \<lparr> agf_seqno = 0, agf_roots = (\<lambda>t. 0), agf_levels = (\<lambda>t. 1),
      agf_flfirst = 0, agf_fllast = 3, agf_flcount = 5,
      agf_freeblks = 0, agf_longest = 0, agf_btreeblks = 0 \<rparr>"

definition demo_freelist :: "nat \<Rightarrow> nat" where
  "demo_freelist k = 10 + k"

definition demo_disk :: disk where
  "demo_disk = \<lparr> rd_allocbt = (\<lambda>a b. None), rd_inobt = (\<lambda>a b. None),
      rd_agfl = (\<lambda>a. Some (B_OK, demo_freelist)),
      rd_sb = (\<lambda>a. Some B_OK), rd_agf = (\<lambda>a. Some (B_OK, demo_agf)), rd_agi = (\<lambda>a. None),
      verify_set_agheader = (\<lambda>a. \<lparr> XR_AG_SB_SEC = False, XR_AG_SB = False,
        XR_AG_AGF = False, XR_AG_AGI = False \<rparr>) \<rparr>"

definition result_fdblocks :: "scan_result \<Rightarrow> nat option" where
  "result_fdblocks r = (case r of Inl f \<Rightarrow> None | Inr st \<Rightarrow> Some (fdblocks (cnts st)))"

definition result_state :: "scan_result \<Rightarrow> nat \<Rightarrow> nat \<Rightarrow> xr_state option" where
  "result_state r a x = (case r of Inl f \<Rightarrow> None | Inr st \<Rightarrow> Some (ag_bmap st a x))"

text \<open>The loops over the children of an interior node (lines 725-753 and
  1397-1403), with the \<open>suspect\<close> the node hands down.\<close>

definition allocbt_children ::
  "mount \<Rightarrow> disk \<Rightarrow> (nat \<times> nat) btree_block \<Rightarrow> int \<Rightarrow> nat \<Rightarrow> nat \<Rightarrow> nat \<Rightarrow> nat \<Rightarrow> scan_state
     \<Rightarrow> scan_result" where
  "allocbt_children mp dsk block level agno suspect magic numrecs st =
     foldl (\<lambda>acc i. case acc of
               Inl e \<Rightarrow> Inl e
             | Inr s \<Rightarrow>
                 if bb_ptr block i \<noteq> 0 \<and> verify_agbno mp agno (bb_ptr block i)
                 then scan_sbtree (rd_allocbt dsk) (bb_ptr block i) level agno suspect
                        (scan_allocbt mp dsk) False magic s
                 else Inr s)
       (Inr st) [0..<numrecs]"

definition inobt_children ::
  "mount \<Rightarrow> disk \<Rightarrow> xfs_inobt_rec btree_block \<Rightarrow> int \<Rightarrow> nat \<Rightarrow> nat \<Rightarrow> nat \<Rightarrow> nat \<Rightarrow> scan_state
     \<Rightarrow> scan_result" where
  "inobt_children mp dsk block level agno suspect magic numrecs st =
     foldl (\<lambda>acc i. case acc of
               Inl e \<Rightarrow> Inl e
             | Inr s \<Rightarrow>
                 if bb_ptr block i \<noteq> 0 \<and> verify_agbno mp agno (bb_ptr block i)
                 then scan_sbtree (rd_inobt dsk) (bb_ptr block i) level agno suspect
                        (scan_inobt mp dsk) False magic s
                 else Inr s)
       (Inr st) [0..<numrecs]"

text \<open>A header without errors: the magic number and the level are the expected
  ones and the record count lies within the bounds of the level (the root may
  fall below the minimum).\<close>

definition hdr_clean :: "nat \<Rightarrow> int \<Rightarrow> nat \<Rightarrow> nat \<Rightarrow> bool \<Rightarrow> 'r btree_block \<Rightarrow> bool" where
  "hdr_clean magic level mxr mnr isroot block \<longleftrightarrow>
     bb_magic block = magic \<and> int (bb_level block) = level \<and>
     bb_numrecs block \<le> mxr \<and> (isroot \<or> mnr \<le> bb_numrecs block)"

text \<open>The blocks read by a run that returned.\<close>

definition result_reads :: "scan_result \<Rightarrow> (nat \<times> nat) list option" where
  "result_reads r = (case r of Inl e \<Rightarrow> None | Inr st \<Rightarrow> Some (reads st))"

text \<open>A freespace interior root with two children at blocks 7 and 8, the same
  with a record count over the maximum, and their inode-tree likes.\<close>

definition demo_node :: "nat \<Rightarrow> (nat \<times> nat) btree_block" where
  "demo_node n = \<lparr> bb_magic = XFS_ABTB_MAGIC, bb_level = 1, bb_numrecs = n,
      bb_rec = (\<lambda>i. (0, 0)), bb_ptr = (\<lambda>i. 7 + i) \<rparr>"

definition demo_inode_node :: "nat \<Rightarrow> xfs_inobt_rec btree_block" where
  "demo_inode_node n = \<lparr> bb_magic = XFS_IBT_MAGIC, bb_level = 1, bb_numrecs = n,
      bb_rec = (\<lambda>i. demo_rec 2048), bb_ptr = (\<lambda>i. 7 + i) \<rparr>"


text \<open>The loop over the children of an extent-tree interior node (lines 437-493)
  and the visitor from \<open>(*tot)++\<close> on (lines 370-520).\<close>

definition bmapbt_children ::
  "mount \<Rightarrow> bmbt_env \<Rightarrow> bmbt_block \<Rightarrow> int \<Rightarrow> nat \<Rightarrow> nat \<Rightarrow> nat \<Rightarrow> nat \<Rightarrow> bool \<Rightarrow> nat \<Rightarrow> nat
     \<Rightarrow> lwalk \<Rightarrow> loop_state" where
  "bmapbt_children mp env block level type whichfork bno ino check_dups magic numrecs w =
     foldl
       (\<lambda>acc i. case acc of
           Running w1 keys dirty \<Rightarrow>
             if \<not> verify_dfsbno mp (lb_ptr block i) then
               Returned True dirty
                 (lwarn ''bad bmap btree ptr in ino'' [lb_ptr block i, ino] w1)
             else
               (case scan_lbtree mp env (lb_ptr block i) level (scan_bmapbt mp env)
                       type whichfork ino False check_dups magic w1 of
                  Inl (f, st) \<Rightarrow> Died f st
                | Inr (err, w2) \<Rightarrow>
                    if err then Returned True dirty w2
                    else bmapbt_fix_key mp (nat level) bno ino check_dups i w2 keys dirty)
         | Returned err dirty w1 \<Rightarrow> Returned err dirty w1
         | Died f st \<Rightarrow> Died f st)
       (Running w (lb_key block) False)
       [0..<numrecs]"

definition bmapbt_body ::
  "mount \<Rightarrow> bmbt_env \<Rightarrow> bmbt_block \<Rightarrow> int \<Rightarrow> nat \<Rightarrow> nat \<Rightarrow> nat \<Rightarrow> nat \<Rightarrow> bool \<Rightarrow> bool \<Rightarrow> nat
     \<Rightarrow> lwalk \<Rightarrow> bm_result" where
  "bmapbt_body mp env block level type whichfork bno ino isroot check_dups magic w0 =
     (if level = 0 then
        Inr (bmapbt_leaf mp env block type whichfork bno ino isroot check_dups
               (w0\<lparr>w_tot := u64 (w_tot w0 + 1)\<rparr>))
      else if lb_numrecs block > m_bmap_dmxr mp 1 \<or>
              (\<not> isroot \<and> lb_numrecs block < m_bmap_dmnr mp 1) then
        Inr (True, False,
             lwarn ''inode, bad # of bmap records''
               [ino, lb_numrecs block, m_bmap_dmnr mp 1, m_bmap_dmxr mp 1]
               (w0\<lparr>w_tot := u64 (w_tot w0 + 1)\<rparr>))
      else
        (case bmapbt_children mp env block level type whichfork bno ino check_dups magic
                (lb_numrecs block) (w0\<lparr>w_tot := u64 (w_tot w0 + 1)\<rparr>) of
           Running w1 keys dirty \<Rightarrow>
             bmapbt_finish mp (nat level) (lb_numrecs block) ino check_dups w1 keys dirty
         | Returned err dirty w1 \<Rightarrow> Inr (err, dirty, w1)
         | Died f st \<Rightarrow> Inl (f, st)))"

text \<open>The cursor as \<open>init_bm_cursor\<close> leaves it, a walk that starts on an empty
  map, externals that find nothing wrong, and an extent-tree interior node of
  level 1 without siblings.\<close>

definition demo_cursor :: "nat \<Rightarrow> bm_level" where
  "demo_cursor l = \<lparr> c_fsbno = NULLFSBLOCK, c_left_fsbno = NULLFSBLOCK,
      c_right_fsbno = NULLFSBLOCK, c_first_key = NULLFILEOFF, c_last_key = NULLFILEOFF \<rparr>"

definition demo_walk :: "bmap \<Rightarrow> lwalk" where
  "demo_walk m = \<lparr> w_st = init_state m, w_tot = 0, w_nex = 0, w_cursor = demo_cursor,
      w_blkmap = [], w_wrote = [] \<rparr>"

definition demo_env :: bmbt_env where
  "demo_env = \<lparr> rd_bmbt = (\<lambda>b. None),
      process_bmbt_reclist = (\<lambda>block n t i f w. (False, w, 0, 0)),
      scan_bmbt_reclist = (\<lambda>block n t i f w. (False, w)),
      search_dup_extent = (\<lambda>a b e. False), search_rt_dup_extent = (\<lambda>b. False),
      XFS_FSB_TO_DADDR = (\<lambda>b. 8 * b), XR_INO_RTDATA = 2 \<rparr>"

definition demo_lnode :: "nat \<Rightarrow> bmbt_block" where
  "demo_lnode n = \<lparr> lb_magic = XFS_BMAP_MAGIC, lb_level = 1, lb_numrecs = n,
      lb_leftsib = NULLFSBLOCK, lb_rightsib = NULLFSBLOCK, lb_owner = 100, lb_blkno = 32,
      lb_uuid_ok = True, lb_key = (\<lambda>i. 0), lb_ptr = (\<lambda>i. 7 + i) \<rparr>"

definition bm_fatal :: "bm_result \<Rightarrow> fatal option" where
  "bm_fatal r = (case r of Inl e \<Rightarrow> Some (fst e) | Inr x \<Rightarrow> None)"

definition entered_state :: "lwalk + lwalk \<Rightarrow> nat \<Rightarrow> nat \<Rightarrow> xr_state option" where
  "entered_state r a x = (case r of Inl w \<Rightarrow> None | Inr w \<Rightarrow> Some (ag_bmap (w_st w) a x))"



text \<open>The state a run returned with, or ended the process in.\<close>

definition res_state :: "scan_result \<Rightarrow> scan_state" where
  "res_state r = (case r of Inl e \<Rightarrow> snd e | Inr st \<Rightarrow> st)"

text \<open>
  How the visitors move the accumulator: \<open>fdblocks\<close> grows by some \<open>d\<close> and the
  sum of \<open>agfbtreeblks\<close> and \<open>agffreeblks\<close> grows by the same \<open>d\<close>, both read
  in the 32 bits of \<open>agffreeblks\<close>.
\<close>

definition cnt_ok :: "aghdr_cnts \<Rightarrow> aghdr_cnts \<Rightarrow> bool" where
  "cnt_ok c c' \<longleftrightarrow>
     (\<exists>d. u32 (fdblocks c') = u32 (fdblocks c + d) \<and>
          u32 (agfbtreeblks c' + agffreeblks c') = u32 (agfbtreeblks c + agffreeblks c + d))"

text \<open>
  The ways a tree visitor changes the state, for the AGs in \<open>A\<close>: a warning; a
  \<open>set_bmap\<close> or a \<open>set_bmap_ext\<close> in one of these AGs that either sets \<open>MULT\<close> or
  finds none of its blocks in state \<open>MULT\<close>; a change of the accumulator as in
  \<open>cnt_ok\<close>; and changes of the fields that hold no block state.
\<close>

inductive steps :: "nat set \<Rightarrow> scan_state \<Rightarrow> scan_state \<Rightarrow> bool" for A :: "nat set" and st :: scan_state where
  steps_refl: "steps A st st"
| steps_warn: "steps A st st' \<Longrightarrow> steps A st (do_warn fmt args st')"
| steps_set: "steps A st st' \<Longrightarrow> a \<in> A \<Longrightarrow> s = XR_E_MULT \<or> ag_bmap st' a x \<noteq> XR_E_MULT \<Longrightarrow>
     steps A st (bmap_set a x s st')"
| steps_set_ext: "steps A st st' \<Longrightarrow> a \<in> A \<Longrightarrow>
     s = XR_E_MULT \<or> (\<forall>y. x \<le> y \<and> y < x + n \<longrightarrow> ag_bmap st' a y \<noteq> XR_E_MULT) \<Longrightarrow>
     steps A st (bmap_set_ext a x n s st')"
| steps_cnts: "steps A st st' \<Longrightarrow> cnt_ok (cnts st') c \<Longrightarrow> steps A st (st'\<lparr>cnts := c\<rparr>)"
| steps_reads: "steps A st st' \<Longrightarrow> steps A st (st'\<lparr>reads := r\<rparr>)"
| steps_bad: "steps A st st' \<Longrightarrow> steps A st (st'\<lparr>bad_ino_btree := b\<rparr>)"
| steps_ino: "steps A st st' \<Longrightarrow> steps A st (st'\<lparr>ino_tree := t\<rparr>)"
| steps_unc: "steps A st st' \<Longrightarrow> steps A st (st'\<lparr>uncertain := u\<rparr>)"

text \<open>
  The log of \<open>set_bmap\<close> calls keeps \<open>MULT\<close>: an entry that follows an entry
  setting \<open>MULT\<close> and shares a block with it sets \<open>MULT\<close> too. \<open>mult_kept\<close> adds
  that every block a logged call set to \<open>MULT\<close> is in state \<open>MULT\<close> now.
\<close>

definition overlap :: "nat \<times> nat \<times> nat \<times> xr_state \<Rightarrow> nat \<times> nat \<times> nat \<times> xr_state \<Rightarrow> bool" where
  "overlap e e' \<longleftrightarrow>
     fst e = fst e' \<and>
     (\<exists>y \<in> {fst (snd e) ..< fst (snd e) + fst (snd (snd e))}.
        fst (snd e') \<le> y \<and> y < fst (snd e') + fst (snd (snd e')))"

fun sticky :: "(nat \<times> nat \<times> nat \<times> xr_state) list \<Rightarrow> bool" where
  "sticky [] = True"
| "sticky (e # es) \<longleftrightarrow>
     (snd (snd (snd e)) = XR_E_MULT \<longrightarrow>
        (\<forall>e' \<in> set es. overlap e e' \<longrightarrow> snd (snd (snd e')) = XR_E_MULT)) \<and> sticky es"

definition mult_kept :: "scan_state \<Rightarrow> bool" where
  "mult_kept st \<longleftrightarrow>
     sticky (sets st) \<and>
     (\<forall>e \<in> set (sets st). snd (snd (snd e)) = XR_E_MULT \<longrightarrow>
        (\<forall>y \<in> {fst (snd e) ..< fst (snd e) + fst (snd (snd e))}.
           ag_bmap st (fst e) y = XR_E_MULT))"





text \<open>The log while AG \<open>k\<close> walks its free list: \<open>MULT\<close> is kept, and what was
  logged is in an AG before \<open>k\<close> or is no \<open>MULT\<close>.\<close>

definition ag_fresh :: "nat \<Rightarrow> scan_state \<Rightarrow> bool" where
  "ag_fresh k st \<longleftrightarrow>
     mult_kept st \<and>
     (\<forall>e \<in> set (sets st). fst e < k \<or> (fst e = k \<and> snd (snd (snd e)) \<noteq> XR_E_MULT))"

definition ag_done :: "nat \<Rightarrow> scan_state \<Rightarrow> bool" where
  "ag_done k st \<longleftrightarrow> mult_kept st \<and> (\<forall>e \<in> set (sets st). fst e < k)"















section \<open>Properties of the freespace leaf loop\<close>

lemma run_len_state: "b \<le> x \<Longrightarrow> x < b + run_len f s b n \<Longrightarrow> f x = s"
proof (induction n arbitrary: b)
  case 0 then show ?case by simp
next
  case (Suc n)
  show ?case
  proof (cases "f b = s")
    case False with Suc.prems show ?thesis by simp
  next
    case True
    show ?thesis
    proof (cases "x = b")
      case True with \<open>f b = s\<close> show ?thesis by simp
    next
      case False
      with Suc.prems True have "Suc b \<le> x" "x < Suc b + run_len f s (Suc b) n" by simp_all
      then show ?thesis by (rule Suc.IH)
    qed
  qed
qed

lemma run_len_stop: "run_len f s b n < n \<Longrightarrow> f (b + run_len f s b n) \<noteq> s"
proof (induction n arbitrary: b)
  case 0 then show ?case by simp
next
  case (Suc n)
  show ?case
  proof (cases "f b = s")
    case False then show ?thesis by simp
  next
    case True
    with Suc.prems have "run_len f s (Suc b) n < n" by simp
    from Suc.IH[OF this] True show ?thesis by simp
  qed
qed

lemma free_claim_frame:
  "a \<noteq> agno \<or> x < b \<or> b + blen \<le> x \<Longrightarrow> 0 < blen \<Longrightarrow>
   ag_bmap (free_claim magic agno b blen s st) a x = ag_bmap st a x"
  by (auto simp: free_claim_def bmap_set_def bmap_set_ext_def set_bmap_def set_bmap_ext_def do_warn_def
      split: xr_state.splits)

lemma get_bmap_ext_pos: "b < endb \<Longrightarrow> 0 < snd (get_bmap_ext m agno b endb)"
  by (simp add: get_bmap_ext_def run_len_pos)

lemma get_bmap_ext_le: "b < endb \<Longrightarrow> b + snd (get_bmap_ext m agno b endb) \<le> endb"
  using run_len_le[of "m agno" "m agno b" b "endb - b"] by (simp add: get_bmap_ext_def)

lemma free_range_frame:
  "a \<noteq> agno \<or> x < b \<or> endb \<le> x \<Longrightarrow>
   ag_bmap (free_range magic agno endb b st) a x = ag_bmap st a x"
proof (induction magic agno endb b st rule: free_range.induct)
  case (1 magic agno endb b st)
  show ?case
  proof (cases "b < endb")
    case False then show ?thesis by (subst free_range.simps) simp
  next
    case True
    let ?r = "get_bmap_ext (ag_bmap st) agno b endb"
    note pos = get_bmap_ext_pos[OF True, of "ag_bmap st" agno]
    note le = get_bmap_ext_le[OF True, of "ag_bmap st" agno]
    have "a \<noteq> agno \<or> x < b + snd ?r \<or> endb \<le> x" using 1(2) by auto
    from 1(1)[OF True this]
    have "ag_bmap (free_range magic agno endb b st) a x =
          ag_bmap (free_claim magic agno b (snd ?r) (fst ?r) st) a x"
      using True by (subst free_range.simps) simp
    also have "\<dots> = ag_bmap st a x"
      using 1(2) pos le by (intro free_claim_frame) auto
    finally show ?thesis .
  qed
qed

lemma free_claim_warns: "set (warns st) \<subseteq> set (warns (free_claim magic agno b blen s st))"
  by (auto simp: free_claim_def bmap_set_def bmap_set_ext_def do_warn_def split: xr_state.splits)

lemma free_range_warns: "set (warns st) \<subseteq> set (warns (free_range magic agno endb b st))"
proof (induction magic agno endb b st rule: free_range.induct)
  case (1 magic agno endb b st)
  show ?case
  proof (cases "b < endb")
    case False then show ?thesis by (subst free_range.simps) simp
  next
    case True
    from 1[OF True] free_claim_warns show ?thesis
      using True by (subst free_range.simps) (simp, blast)
  qed
qed

lemma free_claim_step:
  assumes "b \<le> x" "x < b + blen" "ag_bmap st agno x = s"
  shows "let st1 = free_claim magic agno b blen s st in (
    (s = XR_E_FREE1 \<and> is_cnt_magic magic \<longrightarrow> ag_bmap st1 agno x = XR_E_FREE)
    \<and> (s = XR_E_UNKNOWN \<and> x = b \<longrightarrow> ag_bmap st1 agno x = XR_E_FREE1)
    \<and> (s = XR_E_UNKNOWN \<and> x \<noteq> b \<longrightarrow> ag_bmap st1 agno x = XR_E_UNKNOWN)
    \<and> (s \<noteq> XR_E_UNKNOWN \<and> \<not> (s = XR_E_FREE1 \<and> is_cnt_magic magic) \<longrightarrow>
           ag_bmap st1 agno x = s \<and>
           Warn ''block multiply claimed by space tree'' [agno, b, b + blen - 1] \<in> set (warns st1)))"
  using assms
  by (cases s; simp add: Let_def free_claim_def bmap_set_def bmap_set_ext_def set_bmap_def
                  set_bmap_ext_def do_warn_def)

lemma free_range_rule:
  "b \<le> x \<Longrightarrow> x < endb \<Longrightarrow> free_rule magic agno b x st (free_range magic agno endb b st)"
proof (induction magic agno endb b st rule: free_range.induct)
  case (1 magic agno endb b st)
  let ?m = "ag_bmap st"
  let ?r = "get_bmap_ext ?m agno b endb"
  let ?blen = "snd ?r"
  let ?st1 = "free_claim magic agno b ?blen (fst ?r) st"
  let ?fin = "free_range magic agno endb (b + ?blen) ?st1"
  have lt: "b < endb" using 1(2,3) by simp
  have unf: "free_range magic agno endb b st = ?fin"
    using lt by (subst free_range.simps) simp
  note pos = get_bmap_ext_pos[OF lt, of ?m agno]
  note le = get_bmap_ext_le[OF lt, of ?m agno]
  have fst_r: "fst ?r = ?m agno b" by (simp add: get_bmap_ext_def)
  have run: "\<And>y. b \<le> y \<Longrightarrow> y < b + ?blen \<Longrightarrow> ?m agno y = ?m agno b"
    by (rule run_len_state[where f="?m agno" and n="endb - b"]) (simp_all add: get_bmap_ext_def)
  have stop: "b + ?blen < endb \<Longrightarrow> ?m agno (b + ?blen) \<noteq> ?m agno b"
    using run_len_stop[of "?m agno" "?m agno b" b "endb - b"] by (simp add: get_bmap_ext_def)
  show ?case
  proof (cases "x < b + ?blen")
    case True
    have keep: "ag_bmap ?fin agno x = ag_bmap ?st1 agno x"
      by (rule free_range_frame) (use True in simp)
    have mx: "?m agno x = ?m agno b" using run[OF 1(2) True] .
    have w: "set (warns ?st1) \<subseteq> set (warns ?fin)" by (rule free_range_warns)
    have xm1: "x \<noteq> b \<Longrightarrow> ?m agno (x - 1) = ?m agno b"
      using run[of "x - 1"] 1(2) True by simp
    have step: "(?m agno b = XR_E_FREE1 \<and> is_cnt_magic magic \<longrightarrow> ag_bmap ?st1 agno x = XR_E_FREE)"
      "(?m agno b = XR_E_UNKNOWN \<and> x = b \<longrightarrow> ag_bmap ?st1 agno x = XR_E_FREE1)"
      "(?m agno b = XR_E_UNKNOWN \<and> x \<noteq> b \<longrightarrow> ag_bmap ?st1 agno x = XR_E_UNKNOWN)"
      "(?m agno b \<noteq> XR_E_UNKNOWN \<and> \<not> (?m agno b = XR_E_FREE1 \<and> is_cnt_magic magic) \<longrightarrow>
           ag_bmap ?st1 agno x = ?m agno b \<and>
           Warn ''block multiply claimed by space tree'' [agno, b, b + ?blen - 1] \<in> set (warns ?st1))"
      using free_claim_step[OF 1(2) True mx, of magic] by (simp_all add: Let_def fst_r)
    have hi: "x \<le> b + ?blen - 1" using True by simp
    have "free_rule magic agno b x st ?fin"
      unfolding free_rule_def Let_def keep
    proof (intro conjI impI)
      assume "?m agno x = XR_E_FREE1 \<and> is_cnt_magic magic"
      with step(1) mx show "ag_bmap ?st1 agno x = XR_E_FREE" by simp
    next
      assume a: "?m agno x = XR_E_UNKNOWN \<and> (x = b \<or> ?m agno (x - 1) \<noteq> XR_E_UNKNOWN)"
      with xm1 mx have "x = b" by auto
      with step(2) a mx show "ag_bmap ?st1 agno x = XR_E_FREE1" by simp
    next
      assume a: "?m agno x = XR_E_UNKNOWN \<and> x \<noteq> b \<and> ?m agno (x - 1) = XR_E_UNKNOWN"
      with step(3) mx show "ag_bmap ?st1 agno x = XR_E_UNKNOWN" by simp
    next
      assume a: "?m agno x \<noteq> XR_E_UNKNOWN \<and> \<not> (?m agno x = XR_E_FREE1 \<and> is_cnt_magic magic)"
      with step(4) mx show "ag_bmap ?st1 agno x = ?m agno x" by simp
      from a step(4) mx w
      have "Warn ''block multiply claimed by space tree'' [agno, b, b + ?blen - 1] \<in> set (warns ?fin)"
        by auto
      with 1(2) hi
      show "\<exists>lo hi. lo \<le> x \<and> x \<le> hi \<and>
         Warn ''block multiply claimed by space tree'' [agno, lo, hi] \<in> set (warns ?fin)"
        by blast
    qed
    then show ?thesis by (simp only: unf)
  next
    case False
    then have ge: "b + ?blen \<le> x" by simp
    have IH: "free_rule magic agno (b + ?blen) x ?st1 ?fin"
      using 1(1)[OF lt ge 1(3)] .
    have same: "\<And>y. b + ?blen \<le> y \<Longrightarrow> ag_bmap ?st1 agno y = ?m agno y"
      by (rule free_claim_frame) (use pos in simp_all)
    have bnd: "x = b + ?blen \<Longrightarrow> ?m agno x = XR_E_UNKNOWN \<Longrightarrow> ?m agno (x - 1) \<noteq> XR_E_UNKNOWN"
      using stop run[of "x - 1"] pos 1(3) by auto
    have "free_rule magic agno b x st ?fin"
      using IH same[OF ge] same[of "x - 1"] bnd ge pos
      unfolding free_rule_def Let_def
      by (cases "x = b + ?blen") auto
    then show ?thesis by (simp only: unf)
  qed
qed

lemma run_len_unfold:
  "run_len f s b n = (if n = 0 then 0 else if f b = s then Suc (run_len f s (Suc b) (n - 1)) else 0)"
  by (cases n) simp_all

lemmas bmap_defs = get_bmap_ext_def free_claim_def bmap_set_def bmap_set_ext_def
  set_bmap_def set_bmap_ext_def do_warn_def get_bmap_def

lemmas magic_defs = is_bno_magic_def is_cnt_magic_def XFS_ABTC_MAGIC_def XFS_ABTB_MAGIC_def
  XFS_ABTB_CRC_MAGIC_def XFS_ABTC_CRC_MAGIC_def

lemmas demo_defs = demo_mount_def init_state_def demo_bmap_def zero_cnts_def u32_def u64_def

lemma free_rule_cong: "ag_bmap st0 = ag_bmap st \<Longrightarrow> free_rule magic agno b x st0 st' \<Longrightarrow> free_rule magic agno b x st st'"
  by (simp add: free_rule_def)

text \<open>
  C1, what the code does. For every in-range leaf record \<open>(b, len)\<close> of a
  freespace tree and every block \<open>x\<close> of its range, processing the record
  follows \<open>free_rule\<close>: a block in \<open>FREE1\<close> becomes \<open>FREE\<close> when the by-count tree
  claims it; of a run of unknown blocks only the first block becomes \<open>FREE1\<close>
  (under either tree), the later blocks of the run stay \<open>UNKNOWN\<close>, because
  \<open>set_bmap\<close> marks one block where the loop steps over the whole run; a block
  in any other state keeps its state, with a warning: it is never set to
  \<open>MULT\<close>.
\<close>

theorem allocbt_rec_rule:
  assumes "b \<noteq> 0" "verify_agbno mp agno b" "len \<noteq> 0"
    and "verify_agbno mp agno (u32 (u32 (b + len) + 2 ^ 32 - 1))"
    and "b \<le> x" "x < u32 (b + len)"
  shows "free_rule magic agno b x st
           (fst (allocbt_rec mp magic agno bno i (b, len) (st, lastblock, lastcount)))"
proof -
  have R: "\<And>st0. ag_bmap st0 = ag_bmap st \<Longrightarrow>
      free_rule magic agno b x st (free_range magic agno (u32 (b + len)) b st0)"
    using free_range_rule[OF assms(5,6)] free_rule_cong by blast
  show ?thesis
    using assms(1-4)
    by (auto simp: allocbt_rec_def Let_def do_warn_def intro!: R)
qed


theorem allocbt_rec_rule_witness:
  "ag_bmap (fst (allocbt_rec demo_mount XFS_ABTC_MAGIC 0 1 0 (5, 3)
      (init_state demo_bmap, 0, 0))) 0 5 = XR_E_FREE \<and>
   ag_bmap (fst (allocbt_rec demo_mount XFS_ABTC_MAGIC 0 1 0 (5, 3)
      (init_state demo_bmap, 0, 0))) 0 6 = XR_E_FREE1 \<and>
   ag_bmap (fst (allocbt_rec demo_mount XFS_ABTC_MAGIC 0 1 0 (5, 3)
      (init_state demo_bmap, 0, 0))) 0 7 = XR_E_INO"
proof -
  let ?R = "fst (allocbt_rec demo_mount XFS_ABTC_MAGIC 0 1 0 (5, 3) (init_state demo_bmap, 0, 0))"
  have v: "verify_agbno demo_mount 0 5"
    "verify_agbno demo_mount 0 (u32 (u32 (5 + 3) + 2 ^ 32 - 1))"
    by (simp_all add: demo_mount_def u32_def)
  have r: "x \<in> {5, 6, 7} \<Longrightarrow> free_rule XFS_ABTC_MAGIC 0 5 x (init_state demo_bmap) ?R" for x
    by (rule allocbt_rec_rule) (use v in \<open>auto simp: u32_def\<close>)
  have m: "ag_bmap (init_state demo_bmap) 0 = demo_bmap 0"
    by (simp add: init_state_def)
  have d: "demo_bmap 0 5 = XR_E_FREE1" "demo_bmap 0 6 = XR_E_UNKNOWN"
    "demo_bmap 0 7 = XR_E_INO" "demo_bmap 0 (6 - 1) = XR_E_FREE1"
    by (simp_all add: demo_bmap_def)
  have c: "is_cnt_magic XFS_ABTC_MAGIC"
    by (simp add: is_cnt_magic_def)
  from r[of 5] have "ag_bmap ?R 0 5 = XR_E_FREE"
    unfolding free_rule_def Let_def m by (simp add: d c)
  moreover from r[of 6] have "ag_bmap ?R 0 6 = XR_E_FREE1"
    unfolding free_rule_def Let_def m by (simp add: d c)
  moreover from r[of 7] have "ag_bmap ?R 0 7 = XR_E_INO"
    unfolding free_rule_def Let_def m by (simp add: d c)
  ultimately show ?thesis by simp
qed

text \<open>A block that holds inodes and lies in the range of a by-count record keeps
  its state: it is not set to \<open>MULT\<close>.\<close>

lemma allocbt_rec_keeps_ino:
  "demo_bmap 0 7 = XR_E_INO \<and>
   ag_bmap (fst (allocbt_rec demo_mount XFS_ABTC_MAGIC 0 1 0 (5, 3)
      (init_state demo_bmap, 0, 0))) 0 7 \<noteq> XR_E_MULT"
  by (simp add: allocbt_rec_def demo_defs magic_defs free_range.simps bmap_defs
      run_len_unfold Let_def)

text \<open>The by-offset record \<open>(5, 3)\<close> processed on a map of unknown blocks, and
  the by-count record \<open>(5, 3)\<close> processed after it.\<close>

lemma demo_bno_pass:
  "allocbt_rec demo_mount XFS_ABTB_MAGIC 0 1 0 (5, 3) (init_state empty_bmap, 0, 0) =
     (bmap_set 0 5 XR_E_FREE1 (init_state empty_bmap), 5, 0)"
  by (simp add: allocbt_rec_def demo_mount_def u32_def magic_defs free_range.simps
      get_bmap_ext_def free_claim_def init_state_def empty_bmap_def bmap_set_def set_bmap_def
      set_bmap_ext_def run_len_unfold Let_def)

lemma demo_cnt_pass:
  "map (ag_bmap (fst (allocbt_rec demo_mount XFS_ABTC_MAGIC 0 2 0 (5, 3)
          (bmap_set 0 5 XR_E_FREE1 (init_state empty_bmap), 0, 0))) 0) [5, 6, 7] =
     [XR_E_FREE, XR_E_FREE1, XR_E_UNKNOWN]"
  by (simp add: allocbt_rec_def demo_mount_def u32_def u64_def magic_defs free_range.simps
      get_bmap_ext_def free_claim_def init_state_def empty_bmap_def bmap_set_def bmap_set_ext_def
      set_bmap_def set_bmap_ext_def run_len_unfold zero_cnts_def Let_def)

text \<open>
  C1 fails on the code. On a map of unknown blocks the by-offset record
  \<open>(5, 3)\<close> claims the blocks 5, 6 and 7; processing it sets block 5 to \<open>FREE1\<close>
  and leaves the blocks 6 and 7 \<open>UNKNOWN\<close>, without a warning. When the by-count
  record \<open>(5, 3)\<close> is processed after it, the three blocks end in \<open>FREE\<close>,
  \<open>FREE1\<close> and \<open>UNKNOWN\<close>.
\<close>

theorem allocbt_rec_run_counterexample:
  "map (ag_bmap (fst (allocbt_rec demo_mount XFS_ABTB_MAGIC 0 1 0 (5, 3)
          (init_state empty_bmap, 0, 0))) 0) [5, 6, 7] =
     [XR_E_FREE1, XR_E_UNKNOWN, XR_E_UNKNOWN] \<and>
   warns (fst (allocbt_rec demo_mount XFS_ABTB_MAGIC 0 1 0 (5, 3)
          (init_state empty_bmap, 0, 0))) = [] \<and>
   map (ag_bmap (fst (allocbt_rec demo_mount XFS_ABTC_MAGIC 0 2 0 (5, 3)
          (fst (allocbt_rec demo_mount XFS_ABTB_MAGIC 0 1 0 (5, 3)
             (init_state empty_bmap, 0, 0)), 0, 0))) 0) [5, 6, 7] =
     [XR_E_FREE, XR_E_FREE1, XR_E_UNKNOWN]"
  unfolding demo_bno_pass fst_conv demo_cnt_pass
  by (simp add: bmap_set_def set_bmap_def set_bmap_ext_def init_state_def empty_bmap_def)

section \<open>Properties of the inode record routines\<close>

lemma align_frame:
  "verify_single_ino_chunk_align mp agno type rp suspect st = (st', suspect', skip) \<Longrightarrow>
   ag_bmap st' = ag_bmap st \<and> ino_tree st' = ino_tree st \<and> uncertain st' = uncertain st"
  by (auto simp: verify_single_ino_chunk_align_def Let_def do_warn_def split: if_splits)

text \<open>
  C6, what the code does. The alignment check returns \<open>skip = true\<close> exactly
  when the inode range of the record is out of bounds for the AG (the first or
  the last inode fails \<open>verify_aginum\<close>); it then has warned and raised
  \<open>suspect\<close>, and both callers return at once with that result, so nothing is
  imported. A record whose starting inode only violates the alignment
  constraints gets the warning and a \<open>suspect\<close> raised by one, with
  \<open>skip = false\<close>: the branch of lines 816-826 does not set \<open>*skip\<close>, although the
  comment above it (lines 809-815) ends "skip recs with badly aligned starting
  inodes" and the two branches after it do set \<open>*skip\<close>. In no case does the
  check touch the block-state map or the inode inventory.
\<close>

theorem align_skip:
  assumes "verify_single_ino_chunk_align mp agno type rp suspect st = (st', suspect', skip)"
  shows "(skip \<longleftrightarrow> out_of_bounds mp agno (ir_startino rp)) \<and>
         (skip \<longrightarrow> suspect < suspect' \<and> warns st' \<noteq> warns st) \<and>
         (badly_aligned mp (ir_startino rp) \<and> \<not> out_of_bounds mp agno (ir_startino rp) \<longrightarrow>
            \<not> skip \<and> suspect' = suspect + 1 \<and>
            warns st' = warns st @ [Warn (''badly aligned rec, '' @ inobt_names type)
                                     [XFS_AGINO_TO_INO mp agno (ir_startino rp)]]) \<and>
         (skip \<and> type = INOBT \<longrightarrow> scan_single_ino_chunk mp agno rp suspect st = Some (st', suspect')) \<and>
         (skip \<and> type = FINOBT \<longrightarrow> scan_single_finobt_chunk mp agno rp suspect st = Some (st', suspect')) \<and>
         ag_bmap st' = ag_bmap st \<and> ino_tree st' = ino_tree st \<and> uncertain st' = uncertain st"
  using assms align_frame[OF assms]
  by (auto simp: verify_single_ino_chunk_align_def Let_def do_warn_def out_of_bounds_def
      scan_single_ino_chunk_def scan_single_finobt_chunk_def split: if_splits)

theorem align_skip_witness:
  "snd (snd (verify_single_ino_chunk_align demo_mount 0 INOBT (demo_rec 16000) 0
       (init_state demo_bmap))) \<and>
   scan_single_ino_chunk demo_mount 0 (demo_rec 16000) 0 (init_state demo_bmap) =
     Some (fst (verify_single_ino_chunk_align demo_mount 0 INOBT (demo_rec 16000) 0
                 (init_state demo_bmap)),
           fst (snd (verify_single_ino_chunk_align demo_mount 0 INOBT (demo_rec 16000) 0
                 (init_state demo_bmap))))"
proof -
  obtain st' suspect' skip where
    eq: "verify_single_ino_chunk_align demo_mount 0 INOBT (demo_rec 16000) 0
           (init_state demo_bmap) = (st', suspect', skip)"
    by (metis prod_cases3)
  have oob: "out_of_bounds demo_mount 0 (ir_startino (demo_rec 16000))"
    by (simp add: out_of_bounds_def demo_mount_def demo_rec_def)
  from align_skip[OF eq] oob show ?thesis
    by (simp add: eq)
qed

text \<open>
  C6 fails on the code: with 16 inodes per block, the record starting at inode
  2049 is badly aligned (offset 1 in its block) and in bounds; the check leaves
  \<open>skip\<close> false.
\<close>

theorem align_skip_counterexample:
  "badly_aligned demo_mount (ir_startino (demo_rec 2049)) \<and>
   \<not> snd (snd (verify_single_ino_chunk_align demo_mount 0 INOBT (demo_rec 2049) 0
         (init_state demo_bmap)))"
  by (simp add: verify_single_ino_chunk_align_def Let_def demo_mount_def demo_rec_def u32_def
      XFS_INODES_PER_CHUNK_def badly_aligned_def XFS_AGINO_TO_OFFSET_def)



























section \<open>Properties of the free-inode-tree record scan\<close>




lemma only_ino_claims_cong:
  "ag_bmap st1 = ag_bmap st \<Longrightarrow> only_ino_claims st1 st2 \<Longrightarrow> ag_bmap st3 = ag_bmap st2 \<Longrightarrow>
   only_ino_claims st st3"
  by (simp add: only_ino_claims_def)



















section \<open>Properties of the AGFL walk\<close>

lemma agfl_fold_Cons:
  "agfl_fold mp agno freelist (k # ks) st = agfl_fold mp agno freelist ks (agfl_visit mp agno (freelist k) st)"
  by (simp add: agfl_fold_def)

lemma agfl_walk_up:
  assumes "i \<le> fllast" "fllast < agfl_size mp"
  shows "agfl_walk mp agno freelist fllast i count st =
     Some (Inr (count + length (agfl_slots (agfl_size mp) i fllast),
                agfl_fold mp agno freelist (agfl_slots (agfl_size mp) i fllast) st))"
  using assms
proof (induction "fllast - i" arbitrary: i count st)
  case 0
  then have "i = fllast" by simp
  with 0 show ?case
    by (subst agfl_walk.simps) (simp add: agfl_slots_def agfl_fold_def)
next
  case (Suc d)
  then have lt: "i < fllast" and d: "d = fllast - Suc i" by simp_all
  have sl: "agfl_slots (agfl_size mp) i fllast = i # agfl_slots (agfl_size mp) (Suc i) fllast"
    using lt by (simp add: agfl_slots_def upt_conv_Cons)
  have "agfl_walk mp agno freelist fllast i count st =
        agfl_walk mp agno freelist fllast (Suc i) (count + 1) (agfl_visit mp agno (freelist i) st)"
    using lt Suc.prems by (subst agfl_walk.simps) simp
  also have "\<dots> = Some (Inr (count + 1 + length (agfl_slots (agfl_size mp) (Suc i) fllast),
       agfl_fold mp agno freelist (agfl_slots (agfl_size mp) (Suc i) fllast)
         (agfl_visit mp agno (freelist i) st)))"
    using Suc.hyps(1)[OF d] lt Suc.prems by simp
  finally show ?case by (simp add: sl agfl_fold_Cons)
qed

lemma agfl_walk_slots:
  assumes "i < agfl_size mp" "fllast < agfl_size mp"
  shows "agfl_walk mp agno freelist fllast i count st =
     Some (Inr (count + length (agfl_slots (agfl_size mp) i fllast),
                agfl_fold mp agno freelist (agfl_slots (agfl_size mp) i fllast) st))"
proof (cases "i \<le> fllast")
  case True
  from agfl_walk_up[OF True assms(2)] show ?thesis .
next
  case False
  then show ?thesis using assms(1)
  proof (induction "agfl_size mp - i" arbitrary: i count st)
    case 0
    then show ?case by simp
  next
    case (Suc d)
    have ne: "i \<noteq> fllast" using Suc.prems by simp
    show ?case
    proof (cases "Suc i = agfl_size mp")
      case True
      have sl: "agfl_slots (agfl_size mp) i fllast = i # agfl_slots (agfl_size mp) 0 fllast"
        using Suc.prems True by (simp add: agfl_slots_def upt_conv_Cons)
      have "agfl_walk mp agno freelist fllast i count st =
        agfl_walk mp agno freelist fllast 0 (count + 1) (agfl_visit mp agno (freelist i) st)"
        using ne Suc.prems True by (subst agfl_walk.simps) simp
      also note agfl_walk_up[OF le0 assms(2)]
      finally show ?thesis by (simp add: sl agfl_fold_Cons)
    next
      case False
      with Suc.prems have lt: "Suc i < agfl_size mp" by simp
      have gt: "\<not> Suc i \<le> fllast" using Suc.prems by simp
      have d: "d = agfl_size mp - Suc i" using Suc.hyps(2) by simp
      have sl: "agfl_slots (agfl_size mp) i fllast = i # agfl_slots (agfl_size mp) (Suc i) fllast"
        using Suc.prems lt by (simp add: agfl_slots_def upt_conv_Cons)
      have "agfl_walk mp agno freelist fllast i count st =
        agfl_walk mp agno freelist fllast (Suc i) (count + 1) (agfl_visit mp agno (freelist i) st)"
        using ne Suc.prems False by (subst agfl_walk.simps) simp
      also note Suc.hyps(1)[OF d gt lt]
      finally show ?thesis by (simp add: sl agfl_fold_Cons)
    qed
  qed
qed

lemma agfl_visit_frame:
  "cnts (agfl_visit mp agno bno st) = cnts st \<and>
   set (warns st) \<subseteq> set (warns (agfl_visit mp agno bno st)) \<and>
   (ag_bmap st a x = XR_E_FREE \<longrightarrow> ag_bmap (agfl_visit mp agno bno st) a x = XR_E_FREE) \<and>
   (verify_agbno mp agno bno \<longrightarrow> ag_bmap (agfl_visit mp agno bno st) agno bno = XR_E_FREE)"
  by (auto simp: agfl_visit_def bmap_set_def set_bmap_def set_bmap_ext_def do_warn_def)

lemma agfl_fold_frame:
  "cnts (agfl_fold mp agno freelist ks st) = cnts st \<and>
   set (warns st) \<subseteq> set (warns (agfl_fold mp agno freelist ks st)) \<and>
   (ag_bmap st a x = XR_E_FREE \<longrightarrow> ag_bmap (agfl_fold mp agno freelist ks st) a x = XR_E_FREE)"
proof (induction ks arbitrary: st)
  case Nil
  show ?case by (simp add: agfl_fold_def)
next
  case (Cons k ks)
  from agfl_visit_frame[of mp agno "freelist k" st a x]
       Cons.IH[of "agfl_visit mp agno (freelist k) st"]
  show ?case unfolding agfl_fold_Cons by auto
qed

lemma agfl_fold_free:
  "k \<in> set ks \<Longrightarrow> verify_agbno mp agno (freelist k) \<Longrightarrow>
   ag_bmap (agfl_fold mp agno freelist ks st) agno (freelist k) = XR_E_FREE"
proof (induction ks arbitrary: st)
  case Nil
  then show ?case by simp
next
  case (Cons k' ks)
  show ?case
  proof (cases "k \<in> set ks")
    case True
    from Cons.IH[OF True Cons.prems(2)] show ?thesis unfolding agfl_fold_Cons .
  next
    case False
    with Cons.prems have "k' = k" by simp
    with agfl_visit_frame[of mp agno "freelist k" st agno "freelist k"] Cons.prems(2)
      agfl_fold_frame[of mp agno freelist ks "agfl_visit mp agno (freelist k) st" agno "freelist k"]
    show ?thesis unfolding agfl_fold_Cons by simp
  qed
qed

lemma agfl_fold_other:
  "\<forall>k \<in> set ks. verify_agbno mp agno (freelist k) \<longrightarrow> freelist k \<noteq> x \<Longrightarrow>
   ag_bmap (agfl_fold mp agno freelist ks st) a x = ag_bmap st a x"
proof (induction ks arbitrary: st)
  case Nil
  show ?case by (simp add: agfl_fold_def)
next
  case (Cons k ks)
  have "ag_bmap (agfl_visit mp agno (freelist k) st) a x = ag_bmap st a x"
    using Cons.prems
    by (auto simp: agfl_visit_def bmap_set_def set_bmap_def set_bmap_ext_def do_warn_def)
  with Cons.IH[of "agfl_visit mp agno (freelist k) st"] Cons.prems
  show ?case unfolding agfl_fold_Cons by simp
qed

lemma scan_freelist_eq:
  assumes "agf_flcount agf \<noteq> 0"
    and "rd_agfl dsk (agf_seqno agf) = Some (err, freelist)"
    and "agf_flfirst agf < agfl_size mp" "agf_fllast agf < agfl_size mp"
  shows "scan_freelist mp dsk agf st =
     Inr (freelist_post (agf_seqno agf)
            (length (agfl_slots (agfl_size mp) (agf_flfirst agf) (agf_fllast agf)))
            (agf_flcount agf)
            (agfl_fold mp (agf_seqno agf) freelist
               (agfl_slots (agfl_size mp) (agf_flfirst agf) (agf_fllast agf))
               (freelist_pre mp err (agf_seqno agf) st)))"
  using assms agfl_walk_slots[OF assms(3,4), of "agf_seqno agf" freelist 0
      "freelist_pre mp err (agf_seqno agf) st"]
  by (simp add: scan_freelist_def freelist_pre_def freelist_post_def Let_def)

text \<open>
  C8 (as amended). When the AGFL of an AG is walked (the AGF announces a
  non-empty free list, the AGFL is read, and \<open>flfirst\<close> and \<open>fllast\<close> lie in the
  free list), \<open>scan_freelist\<close> returns, and afterwards: every listed block that is
  a valid AG block number is \<open>FREE\<close> in the block-state map; if the number of
  blocks walked differs from \<open>flcount\<close> the warning has been emitted; the
  free-block total has grown by the walked count and by nothing else; and the
  AGFL block itself is marked \<open>FS_MAP\<close> (when it is none of the header blocks and
  not listed), not counted as free.
\<close>

theorem scan_freelist_walk:
  assumes "agf_flcount agf \<noteq> 0"
    and "rd_agfl dsk (agf_seqno agf) = Some (err, freelist)"
    and "agf_flfirst agf < agfl_size mp" "agf_fllast agf < agfl_size mp"
  shows "\<exists>st'. scan_freelist mp dsk agf st = Inr st' \<and>
    (\<forall>k \<in> set (agfl_slots (agfl_size mp) (agf_flfirst agf) (agf_fllast agf)).
       verify_agbno mp (agf_seqno agf) (freelist k) \<longrightarrow>
       ag_bmap st' (agf_seqno agf) (freelist k) = XR_E_FREE) \<and>
    (length (agfl_slots (agfl_size mp) (agf_flfirst agf) (agf_fllast agf)) \<noteq> agf_flcount agf \<longrightarrow>
       Warn ''freeblk count != flcount in ag''
         [length (agfl_slots (agfl_size mp) (agf_flfirst agf) (agf_fllast agf)),
          agf_flcount agf, agf_seqno agf] \<in> set (warns st')) \<and>
    fdblocks (cnts st') =
      u64 (fdblocks (cnts st) +
           length (agfl_slots (agfl_size mp) (agf_flfirst agf) (agf_fllast agf))) \<and>
    (sb_block mp \<noteq> agfl_block mp \<and> agf_block mp \<noteq> agfl_block mp \<and>
     agi_block mp \<noteq> agfl_block mp \<and>
     (\<forall>k \<in> set (agfl_slots (agfl_size mp) (agf_flfirst agf) (agf_fllast agf)).
        verify_agbno mp (agf_seqno agf) (freelist k) \<longrightarrow> freelist k \<noteq> agfl_block mp)
     \<longrightarrow> ag_bmap st' (agf_seqno agf) (agfl_block mp) = XR_E_FS_MAP)"
proof -
  let ?agno = "agf_seqno agf"
  let ?ks = "agfl_slots (agfl_size mp) (agf_flfirst agf) (agf_fllast agf)"
  let ?st2 = "freelist_pre mp err ?agno st"
  let ?st3 = "agfl_fold mp ?agno freelist ?ks ?st2"
  let ?st' = "freelist_post ?agno (length ?ks) (agf_flcount agf) ?st3"
  note run = scan_freelist_eq[OF assms, of st]
  have c: "cnts ?st3 = cnts st"
    using agfl_fold_frame[of mp ?agno freelist ?ks ?st2]
    by (simp add: freelist_pre_def Let_def do_warn_def bmap_set_def)
  have b: "ag_bmap ?st' = ag_bmap ?st3"
    by (simp add: freelist_post_def Let_def do_warn_def)
  have f: "\<forall>k \<in> set ?ks. verify_agbno mp ?agno (freelist k) \<longrightarrow>
       ag_bmap ?st' ?agno (freelist k) = XR_E_FREE"
    unfolding b using agfl_fold_free[of _ ?ks mp ?agno freelist ?st2] by simp
  have w: "length ?ks \<noteq> agf_flcount agf \<longrightarrow>
       Warn ''freeblk count != flcount in ag'' [length ?ks, agf_flcount agf, ?agno] \<in> set (warns ?st')"
    by (simp add: freelist_post_def Let_def do_warn_def)
  have d: "fdblocks (cnts ?st') = u64 (fdblocks (cnts st) + length ?ks)"
    using c by (simp add: freelist_post_def Let_def do_warn_def)
  have m: "sb_block mp \<noteq> agfl_block mp \<and> agf_block mp \<noteq> agfl_block mp \<and>
     agi_block mp \<noteq> agfl_block mp \<and>
     (\<forall>k \<in> set ?ks. verify_agbno mp ?agno (freelist k) \<longrightarrow> freelist k \<noteq> agfl_block mp)
     \<longrightarrow> ag_bmap ?st' ?agno (agfl_block mp) = XR_E_FS_MAP"
  proof (intro impI, elim conjE)
    assume h: "sb_block mp \<noteq> agfl_block mp" "agf_block mp \<noteq> agfl_block mp"
      "agi_block mp \<noteq> agfl_block mp"
      and o: "\<forall>k \<in> set ?ks. verify_agbno mp ?agno (freelist k) \<longrightarrow> freelist k \<noteq> agfl_block mp"
    from h have "ag_bmap ?st2 ?agno (agfl_block mp) = XR_E_FS_MAP"
      by (simp add: freelist_pre_def Let_def do_warn_def bmap_set_def set_bmap_def set_bmap_ext_def)
    with agfl_fold_other[OF o, of ?st2 ?agno]
    show "ag_bmap ?st' ?agno (agfl_block mp) = XR_E_FS_MAP"
      unfolding b by simp
  qed
  from run f w d m show ?thesis by blast
qed

lemma demo_freelist_pre:
  "agf_flcount demo_agf \<noteq> 0 \<and> rd_agfl demo_disk (agf_seqno demo_agf) = Some (B_OK, demo_freelist) \<and>
   agf_flfirst demo_agf < agfl_size demo_mount \<and> agf_fllast demo_agf < agfl_size demo_mount"
  by (simp add: demo_agf_def demo_disk_def demo_mount_def)

lemma demo_slots: "agfl_slots (agfl_size demo_mount) (agf_flfirst demo_agf) (agf_fllast demo_agf) = [0, 1, 2, 3]"
  by (simp add: agfl_slots_def demo_agf_def demo_mount_def upt_conv_Cons)

text \<open>
  C8 as stated fails: on the free list above, four blocks are walked and the
  free-block total goes from 0 to 4, the walked count alone; the AGFL block is
  not added to it, it is marked \<open>FS_MAP\<close>.
\<close>

theorem scan_freelist_counterexample:
  "result_fdblocks (scan_freelist demo_mount demo_disk demo_agf (init_state empty_bmap)) = Some 4 \<and>
   result_state (scan_freelist demo_mount demo_disk demo_agf (init_state empty_bmap))
      0 (agfl_block demo_mount) = Some XR_E_FS_MAP"
  using demo_freelist_pre
  by (simp add: scan_freelist_eq[where err=B_OK and freelist=demo_freelist] demo_slots
      result_fdblocks_def result_state_def freelist_post_def freelist_pre_def agfl_fold_def
      agfl_visit_def Let_def demo_freelist_def)
     (simp add: demo_mount_def demo_agf_def init_state_def empty_bmap_def zero_cnts_def u64_def
      bmap_set_def set_bmap_def set_bmap_ext_def do_warn_def)

theorem scan_freelist_walk_witness:
  "result_state (scan_freelist demo_mount demo_disk demo_agf (init_state empty_bmap)) 0 12
     = Some XR_E_FREE \<and>
   result_fdblocks (scan_freelist demo_mount demo_disk demo_agf (init_state empty_bmap)) = Some 4"
proof -
  let ?ks = "agfl_slots (agfl_size demo_mount) (agf_flfirst demo_agf) (agf_fllast demo_agf)"
  have p1: "agf_flcount demo_agf \<noteq> 0"
    and p2: "rd_agfl demo_disk (agf_seqno demo_agf) = Some (B_OK, demo_freelist)"
    and p3: "agf_flfirst demo_agf < agfl_size demo_mount"
    and p4: "agf_fllast demo_agf < agfl_size demo_mount"
    using demo_freelist_pre by simp_all
  from scan_freelist_walk[OF p1 p2 p3 p4, of "init_state empty_bmap"]
  obtain st' where r: "scan_freelist demo_mount demo_disk demo_agf (init_state empty_bmap) = Inr st'"
    and f: "\<forall>k \<in> set ?ks. verify_agbno demo_mount (agf_seqno demo_agf) (demo_freelist k) \<longrightarrow>
       ag_bmap st' (agf_seqno demo_agf) (demo_freelist k) = XR_E_FREE"
    and d: "fdblocks (cnts st') = u64 (fdblocks (cnts (init_state empty_bmap)) + length ?ks)"
    by blast
  have "2 \<in> set ?ks" by (simp add: demo_slots)
  with f have "ag_bmap st' 0 12 = XR_E_FREE"
    by (auto simp: demo_freelist_def demo_mount_def demo_agf_def)
  moreover from d have "fdblocks (cnts st') = 4"
    by (simp add: demo_slots init_state_def zero_cnts_def u64_def)
  ultimately show ?thesis
    by (simp add: r result_state_def result_fdblocks_def)
qed

section \<open>Properties of the short-tree visitors\<close>

lemma scan_allocbt_unfold:
  "scan_allocbt mp dsk block level bno agno suspect isroot magic st =
     (if \<not> is_bno_magic magic \<and> \<not> is_cnt_magic magic then Inl (Assert_failed, st)
      else case allocbt_header block level bno agno suspect isroot magic st of
        Inl st' \<Rightarrow> Inr st'
      | Inr (st4, hdr_errors) \<Rightarrow>
          if level = 0 then Inr (allocbt_leaf_block mp block bno agno isroot magic hdr_errors st4)
          else case allocbt_interior mp block bno agno suspect isroot magic hdr_errors st4 of
            Inl st' \<Rightarrow> Inr st'
          | Inr (st5, suspect', numrecs) \<Rightarrow>
              allocbt_children mp dsk block level agno suspect' magic numrecs st5)"
  unfolding allocbt_children_def by (rule scan_allocbt.simps)

lemma scan_inobt_unfold:
  "scan_inobt mp dsk block level bno agno suspect isroot magic st =
     (case inobt_header block level bno agno suspect magic st of
        Inl st' \<Rightarrow> Inr st'
      | Inr (st4, hdr_errors) \<Rightarrow>
          if level = 0 then inobt_leaf_block mp block bno agno suspect isroot magic hdr_errors st4
          else case inobt_interior mp block suspect isroot hdr_errors st4 of
            Inl st' \<Rightarrow> Inr st'
          | Inr (st5, suspect', numrecs) \<Rightarrow>
              inobt_children mp dsk block level agno suspect' magic numrecs st5)"
  unfolding inobt_children_def by (rule scan_inobt.simps)

lemma clamp_clean:
  "n \<le> mxr \<Longrightarrow> isroot \<or> mnr \<le> n \<Longrightarrow> clamp_numrecs mxr mnr isroot n = (n, 0)"
  by (auto simp: clamp_numrecs_def Let_def)

lemma clamp_dirty:
  "\<not> (n \<le> mxr \<and> (isroot \<or> mnr \<le> n)) \<Longrightarrow> snd (clamp_numrecs mxr mnr isroot n) \<noteq> 0"
  by (auto simp: clamp_numrecs_def Let_def)

lemma allocbt_header_frame:
  "reads (case_sum id fst (allocbt_header block level bno agno suspect isroot magic st)) = reads st"
  by (auto simp: allocbt_header_def Let_def do_warn_def bmap_set_def)

lemma inobt_header_frame:
  "reads (case_sum id fst (inobt_header block level bno agno suspect magic st)) = reads st"
  by (auto simp: inobt_header_def Let_def do_warn_def bmap_set_def inobt_claim_def
      set_bad_ino_btree_def split: xr_state.splits)

lemma allocbt_clean_descent:
  assumes "is_bno_magic magic \<or> is_cnt_magic magic" "level \<noteq> 0"
    and "hdr_clean magic level (m_alloc_mxr mp 1) (m_alloc_mnr mp 1) isroot block"
  shows "scan_allocbt mp dsk block level bno agno suspect isroot magic st =
     (case allocbt_header block level bno agno suspect isroot magic st of
        Inl st' \<Rightarrow> Inr st'
      | Inr (st4, h) \<Rightarrow> allocbt_children mp dsk block level agno 0 magic (bb_numrecs block) st4)"
proof (cases "allocbt_header block level bno agno suspect isroot magic st")
  case (Inl st')
  with assms(1) show ?thesis by (auto simp: scan_allocbt_unfold)
next
  case (Inr p)
  obtain st4 h where p: "p = (st4, h)" by (cases p)
  from Inr p assms(3) have h: "h = 0"
    by (auto simp: allocbt_header_def Let_def hdr_clean_def split: if_splits)
  from assms(3) have c: "clamp_numrecs (m_alloc_mxr mp 1) (m_alloc_mnr mp 1) isroot (bb_numrecs block)
      = (bb_numrecs block, 0)"
    by (intro clamp_clean) (auto simp: hdr_clean_def)
  show ?thesis
    using assms(1,2) Inr p h c
    by (auto simp: scan_allocbt_unfold allocbt_interior_def)
qed

lemma allocbt_dirty_stop:
  assumes "is_bno_magic magic \<or> is_cnt_magic magic" "level \<noteq> 0" "suspect \<noteq> 0"
    and "\<not> hdr_clean magic level (m_alloc_mxr mp 1) (m_alloc_mnr mp 1) isroot block"
  shows "result_reads (scan_allocbt mp dsk block level bno agno suspect isroot magic st)
           = Some (reads st)"
proof (cases "allocbt_header block level bno agno suspect isroot magic st")
  case (Inl st')
  with assms(1) allocbt_header_frame[of block level bno agno suspect isroot magic st]
  show ?thesis by (auto simp: scan_allocbt_unfold result_reads_def)
next
  case (Inr p)
  obtain st4 h where p: "p = (st4, h)" by (cases p)
  from Inr p assms(3) have h: "h = 0" "bb_magic block = magic" "int (bb_level block) = level"
    by (auto simp: allocbt_header_def Let_def split: if_splits)
  with assms(4) have "snd (clamp_numrecs (m_alloc_mxr mp 1) (m_alloc_mnr mp 1) isroot (bb_numrecs block)) \<noteq> 0"
    by (intro clamp_dirty) (auto simp: hdr_clean_def)
  then obtain n e where c: "clamp_numrecs (m_alloc_mxr mp 1) (m_alloc_mnr mp 1) isroot (bb_numrecs block) = (n, e)"
    and e: "e \<noteq> 0" by (cases "clamp_numrecs (m_alloc_mxr mp 1) (m_alloc_mnr mp 1) isroot (bb_numrecs block)") auto
  from allocbt_header_frame[of block level bno agno suspect isroot magic st] Inr p
  have "reads st4 = reads st" by simp
  then show ?thesis
    using assms(1,2,3) Inr p h c e
    by (auto simp: scan_allocbt_unfold allocbt_interior_def result_reads_def Let_def do_warn_def)
qed

lemma inobt_clean_descent:
  assumes "level \<noteq> 0"
    and "hdr_clean magic level (m_inobt_mxr mp 1) (m_inobt_mnr mp 1) isroot block"
  shows "scan_inobt mp dsk block level bno agno suspect isroot magic st =
     (case inobt_header block level bno agno suspect magic st of
        Inl st' \<Rightarrow> Inr st'
      | Inr (st4, h) \<Rightarrow> inobt_children mp dsk block level agno 0 magic (bb_numrecs block) st4)"
proof (cases "inobt_header block level bno agno suspect magic st")
  case (Inl st')
  then show ?thesis by (simp add: scan_inobt_unfold)
next
  case (Inr p)
  obtain st4 h where p: "p = (st4, h)" by (cases p)
  from Inr p assms(2) have h: "h = 0"
    by (auto simp: inobt_header_def Let_def hdr_clean_def split: if_splits)
  from assms(2) have c: "clamp_numrecs (m_inobt_mxr mp 1) (m_inobt_mnr mp 1) isroot (bb_numrecs block)
      = (bb_numrecs block, 0)"
    by (intro clamp_clean) (auto simp: hdr_clean_def)
  show ?thesis
    using assms(1) Inr p h c
    by (simp add: scan_inobt_unfold inobt_interior_def)
qed

lemma inobt_dirty_stop:
  assumes "level \<noteq> 0" "suspect \<noteq> 0"
    and "\<not> hdr_clean magic level (m_inobt_mxr mp 1) (m_inobt_mnr mp 1) isroot block"
  shows "result_reads (scan_inobt mp dsk block level bno agno suspect isroot magic st)
           = Some (reads st)"
proof (cases "inobt_header block level bno agno suspect magic st")
  case (Inl st')
  with inobt_header_frame[of block level bno agno suspect magic st]
  show ?thesis by (simp add: scan_inobt_unfold result_reads_def)
next
  case (Inr p)
  obtain st4 h where p: "p = (st4, h)" by (cases p)
  from Inr p assms(2) have h: "h = 0" "bb_magic block = magic" "int (bb_level block) = level"
    by (auto simp: inobt_header_def Let_def split: if_splits)
  with assms(3) have "snd (clamp_numrecs (m_inobt_mxr mp 1) (m_inobt_mnr mp 1) isroot (bb_numrecs block)) \<noteq> 0"
    by (intro clamp_dirty) (auto simp: hdr_clean_def)
  then obtain n e where c: "clamp_numrecs (m_inobt_mxr mp 1) (m_inobt_mnr mp 1) isroot (bb_numrecs block) = (n, e)"
    and e: "e \<noteq> 0" by (cases "clamp_numrecs (m_inobt_mxr mp 1) (m_inobt_mnr mp 1) isroot (bb_numrecs block)") auto
  from inobt_header_frame[of block level bno agno suspect magic st] Inr p
  have "reads st4 = reads st" by simp
  then show ?thesis
    using assms(1,2) Inr p h c e
    by (simp add: scan_inobt_unfold inobt_interior_def result_reads_def Let_def set_bad_ino_btree_def)
qed

text \<open>
  C10. In the freespace-tree and inode-tree visitors, an interior node whose
  header has no errors hands \<open>suspect = 0\<close> to its children, whatever \<open>suspect\<close> it
  inherited: the visitor's result is the loop over the children run with
  \<open>suspect = 0\<close> (unless the freespace visitor returns at the claim of the
  block). An interior node that has header errors while already suspect returns
  without reading any child.
\<close>

theorem suspect_reset:
  "((is_bno_magic magic \<or> is_cnt_magic magic) \<and> level \<noteq> 0 \<and>
      hdr_clean magic level (m_alloc_mxr mp 1) (m_alloc_mnr mp 1) isroot ablock \<longrightarrow>
    scan_allocbt mp dsk ablock level bno agno suspect isroot magic st =
      (case allocbt_header ablock level bno agno suspect isroot magic st of
         Inl st' \<Rightarrow> Inr st'
       | Inr (st4, h) \<Rightarrow>
           allocbt_children mp dsk ablock level agno 0 magic (bb_numrecs ablock) st4)) \<and>
   ((is_bno_magic magic \<or> is_cnt_magic magic) \<and> level \<noteq> 0 \<and> suspect \<noteq> 0 \<and>
      \<not> hdr_clean magic level (m_alloc_mxr mp 1) (m_alloc_mnr mp 1) isroot ablock \<longrightarrow>
    result_reads (scan_allocbt mp dsk ablock level bno agno suspect isroot magic st)
      = Some (reads st)) \<and>
   (level \<noteq> 0 \<and> hdr_clean magic level (m_inobt_mxr mp 1) (m_inobt_mnr mp 1) isroot iblock \<longrightarrow>
    scan_inobt mp dsk iblock level bno agno suspect isroot magic st =
      (case inobt_header iblock level bno agno suspect magic st of
         Inl st' \<Rightarrow> Inr st'
       | Inr (st4, h) \<Rightarrow>
           inobt_children mp dsk iblock level agno 0 magic (bb_numrecs iblock) st4)) \<and>
   (level \<noteq> 0 \<and> suspect \<noteq> 0 \<and>
      \<not> hdr_clean magic level (m_inobt_mxr mp 1) (m_inobt_mnr mp 1) isroot iblock \<longrightarrow>
    result_reads (scan_inobt mp dsk iblock level bno agno suspect isroot magic st)
      = Some (reads st))"
proof (intro conjI impI)
  assume "(is_bno_magic magic \<or> is_cnt_magic magic) \<and> level \<noteq> 0 \<and>
      hdr_clean magic level (m_alloc_mxr mp 1) (m_alloc_mnr mp 1) isroot ablock"
  then show "scan_allocbt mp dsk ablock level bno agno suspect isroot magic st =
      (case allocbt_header ablock level bno agno suspect isroot magic st of
         Inl st' \<Rightarrow> Inr st'
       | Inr (st4, h) \<Rightarrow>
           allocbt_children mp dsk ablock level agno 0 magic (bb_numrecs ablock) st4)"
    by (intro allocbt_clean_descent) simp_all
next
  assume "(is_bno_magic magic \<or> is_cnt_magic magic) \<and> level \<noteq> 0 \<and> suspect \<noteq> 0 \<and>
      \<not> hdr_clean magic level (m_alloc_mxr mp 1) (m_alloc_mnr mp 1) isroot ablock"
  then show "result_reads (scan_allocbt mp dsk ablock level bno agno suspect isroot magic st)
      = Some (reads st)"
    by (intro allocbt_dirty_stop) simp_all
next
  assume "level \<noteq> 0 \<and> hdr_clean magic level (m_inobt_mxr mp 1) (m_inobt_mnr mp 1) isroot iblock"
  then show "scan_inobt mp dsk iblock level bno agno suspect isroot magic st =
      (case inobt_header iblock level bno agno suspect magic st of
         Inl st' \<Rightarrow> Inr st'
       | Inr (st4, h) \<Rightarrow>
           inobt_children mp dsk iblock level agno 0 magic (bb_numrecs iblock) st4)"
    by (intro inobt_clean_descent) simp_all
next
  assume "level \<noteq> 0 \<and> suspect \<noteq> 0 \<and>
      \<not> hdr_clean magic level (m_inobt_mxr mp 1) (m_inobt_mnr mp 1) isroot iblock"
  then show "result_reads (scan_inobt mp dsk iblock level bno agno suspect isroot magic st)
      = Some (reads st)"
    by (intro inobt_dirty_stop) simp_all
qed

lemma demo_node_clean:
  "hdr_clean XFS_ABTB_MAGIC 1 (m_alloc_mxr demo_mount 1) (m_alloc_mnr demo_mount 1) True (demo_node 2)"
  "\<not> hdr_clean XFS_ABTB_MAGIC 1 (m_alloc_mxr demo_mount 1) (m_alloc_mnr demo_mount 1) True (demo_node 9)"
  "hdr_clean XFS_IBT_MAGIC 1 (m_inobt_mxr demo_mount 1) (m_inobt_mnr demo_mount 1) True (demo_inode_node 2)"
  "\<not> hdr_clean XFS_IBT_MAGIC 1 (m_inobt_mxr demo_mount 1) (m_inobt_mnr demo_mount 1) True (demo_inode_node 9)"
  by (simp_all add: hdr_clean_def demo_node_def demo_inode_node_def demo_mount_def)

lemma demo_allocbt_header:
  "allocbt_header (demo_node 2) 1 4 0 s True XFS_ABTB_MAGIC (init_state empty_bmap)
     = Inr (bmap_set 0 4 XR_E_FS_MAP (init_state empty_bmap), 0)"
  by (simp add: allocbt_header_def demo_node_def Let_def get_bmap_def init_state_def empty_bmap_def)

lemma demo_inobt_header:
  "inobt_header (demo_inode_node 2) 1 4 0 s XFS_IBT_MAGIC (init_state empty_bmap)
     = Inr (bmap_set 0 4 XR_E_FS_MAP (init_state empty_bmap), 0)"
  by (simp add: inobt_header_def demo_inode_node_def Let_def get_bmap_def init_state_def
      empty_bmap_def inobt_claim_def)

theorem suspect_reset_witness:
  "scan_allocbt demo_mount demo_disk (demo_node 2) 1 4 0 1 True XFS_ABTB_MAGIC (init_state empty_bmap)
     = allocbt_children demo_mount demo_disk (demo_node 2) 1 0 0 XFS_ABTB_MAGIC 2
         (bmap_set 0 4 XR_E_FS_MAP (init_state empty_bmap)) \<and>
   result_reads (scan_allocbt demo_mount demo_disk (demo_node 9) 1 4 0 1 True XFS_ABTB_MAGIC
      (init_state empty_bmap)) = Some [] \<and>
   scan_inobt demo_mount demo_disk (demo_inode_node 2) 1 4 0 1 True XFS_IBT_MAGIC (init_state empty_bmap)
     = inobt_children demo_mount demo_disk (demo_inode_node 2) 1 0 0 XFS_IBT_MAGIC 2
         (bmap_set 0 4 XR_E_FS_MAP (init_state empty_bmap)) \<and>
   result_reads (scan_inobt demo_mount demo_disk (demo_inode_node 9) 1 4 0 1 True XFS_IBT_MAGIC
      (init_state empty_bmap)) = Some []"
proof -
  have m: "is_bno_magic XFS_ABTB_MAGIC" by (simp add: is_bno_magic_def)
  have r: "reads (init_state empty_bmap) = []" by (simp add: init_state_def)
  have n: "bb_numrecs (demo_node 2) = 2" "bb_numrecs (demo_inode_node 2) = 2"
    by (simp_all add: demo_node_def demo_inode_node_def)
  note t1 = suspect_reset[of XFS_ABTB_MAGIC 1 demo_mount True "demo_node 2" demo_disk 4 0 1
      "init_state empty_bmap" "demo_inode_node 9"]
  note t2 = suspect_reset[of XFS_ABTB_MAGIC 1 demo_mount True "demo_node 9" demo_disk 4 0 1
      "init_state empty_bmap" "demo_inode_node 9"]
  note t3 = suspect_reset[of XFS_IBT_MAGIC 1 demo_mount True "demo_node 9" demo_disk 4 0 1
      "init_state empty_bmap" "demo_inode_node 2"]
  note t4 = suspect_reset[of XFS_IBT_MAGIC 1 demo_mount True "demo_node 9" demo_disk 4 0 1
      "init_state empty_bmap" "demo_inode_node 9"]
  from t1 m demo_node_clean(1) have a: "scan_allocbt demo_mount demo_disk (demo_node 2) 1 4 0 1 True
      XFS_ABTB_MAGIC (init_state empty_bmap)
     = allocbt_children demo_mount demo_disk (demo_node 2) 1 0 0 XFS_ABTB_MAGIC 2
         (bmap_set 0 4 XR_E_FS_MAP (init_state empty_bmap))"
    by (simp add: demo_allocbt_header n)
  from t2 m demo_node_clean(2) have b: "result_reads (scan_allocbt demo_mount demo_disk (demo_node 9)
      1 4 0 1 True XFS_ABTB_MAGIC (init_state empty_bmap)) = Some []"
    by (simp add: r)
  from t3 demo_node_clean(3) have c: "scan_inobt demo_mount demo_disk (demo_inode_node 2) 1 4 0 1 True
      XFS_IBT_MAGIC (init_state empty_bmap)
     = inobt_children demo_mount demo_disk (demo_inode_node 2) 1 0 0 XFS_IBT_MAGIC 2
         (bmap_set 0 4 XR_E_FS_MAP (init_state empty_bmap))"
    by (simp add: demo_inobt_header n)
  from t4 demo_node_clean(4) have d: "result_reads (scan_inobt demo_mount demo_disk (demo_inode_node 9)
      1 4 0 1 True XFS_IBT_MAGIC (init_state empty_bmap)) = Some []"
    by (simp add: r)
  from a b c d show ?thesis by simp
qed

section \<open>Properties of the extent-tree visitor\<close>

lemma scan_bmapbt_unfold:
  "scan_bmapbt mp env block level type whichfork bno ino isroot check_dups magic w =
     (case bmapbt_enter mp env block level type whichfork bno ino check_dups magic w of
        Inl w' \<Rightarrow> Inr (True, False, w')
      | Inr w0 \<Rightarrow> bmapbt_body mp env block level type whichfork bno ino isroot check_dups magic w0)"
  unfolding bmapbt_body_def bmapbt_children_def by (rule scan_bmapbt.simps)

lemma bmapbt_claim_cases:
  "(ag_bmap st agno agbno \<in> {XR_E_UNKNOWN, XR_E_FREE1, XR_E_FREE} \<longrightarrow>
      ag_bmap (bmapbt_claim ino bno agno agbno st) agno agbno = XR_E_INUSE \<and>
      warns (bmapbt_claim ino bno agno agbno st) = warns st) \<and>
   (ag_bmap st agno agbno \<in> {XR_E_FS_MAP, XR_E_INUSE, XR_E_MULT, XR_E_INUSE_FS} \<longrightarrow>
      ag_bmap (bmapbt_claim ino bno agno agbno st) agno agbno = XR_E_MULT \<and>
      warns (bmapbt_claim ino bno agno agbno st) =
        warns st @ [Warn ''inode bmap block claimed, state is'' [ino, bno]])"
  by (cases "ag_bmap st agno agbno")
     (simp_all add: bmapbt_claim_def get_bmap_def bmap_set_def set_bmap_def set_bmap_ext_def
        do_warn_def)

text \<open>
  C4. In a normal scan (\<open>check_dups = 0\<close>), once the header and the sibling
  pointers of a node have passed, the visitor claims the node's own block and
  goes on with the node (it does not return at the claim): from \<open>UNKNOWN\<close>,
  \<open>FREE1\<close> or \<open>FREE\<close> the block becomes \<open>INUSE\<close> without a warning; from \<open>FS_MAP\<close>,
  \<open>INUSE\<close>, \<open>MULT\<close> or \<open>INUSE_FS\<close> it is set to \<open>MULT\<close> with a warning.
\<close>

theorem bmapbt_claim_rule:
  assumes "\<not> check_dups"
    and "bmapbt_header env block level bno ino magic w = None"
    and "bmapbt_siblings block (nat level) bno ino w = None"
  shows "\<exists>w'. bmapbt_enter mp env block level type whichfork bno ino check_dups magic w = Inr w' \<and>
      scan_bmapbt mp env block level type whichfork bno ino isroot check_dups magic w =
        bmapbt_body mp env block level type whichfork bno ino isroot check_dups magic w' \<and>
      (ag_bmap (w_st w) (XFS_FSB_TO_AGNO mp bno) (XFS_FSB_TO_AGBNO mp bno)
          \<in> {XR_E_UNKNOWN, XR_E_FREE1, XR_E_FREE} \<longrightarrow>
        ag_bmap (w_st w') (XFS_FSB_TO_AGNO mp bno) (XFS_FSB_TO_AGBNO mp bno) = XR_E_INUSE \<and>
        warns (w_st w') = warns (w_st w)) \<and>
      (ag_bmap (w_st w) (XFS_FSB_TO_AGNO mp bno) (XFS_FSB_TO_AGBNO mp bno)
          \<in> {XR_E_FS_MAP, XR_E_INUSE, XR_E_MULT, XR_E_INUSE_FS} \<longrightarrow>
        ag_bmap (w_st w') (XFS_FSB_TO_AGNO mp bno) (XFS_FSB_TO_AGBNO mp bno) = XR_E_MULT \<and>
        warns (w_st w') =
          warns (w_st w) @ [Warn ''inode bmap block claimed, state is'' [ino, bno]])"
proof -
  let ?w' = "w\<lparr>w_cursor := (w_cursor w)(nat level :=
                          (w_cursor w (nat level))\<lparr>c_fsbno := bno,
                             c_left_fsbno := lb_leftsib block,
                             c_right_fsbno := lb_rightsib block\<rparr>),
                        w_st := bmapbt_claim ino bno (XFS_FSB_TO_AGNO mp bno)
                                  (XFS_FSB_TO_AGBNO mp bno) (w_st w)\<rparr>"
  have e: "bmapbt_enter mp env block level type whichfork bno ino check_dups magic w = Inr ?w'"
    using assms by (simp add: bmapbt_enter_def)
  have s: "w_st ?w' = bmapbt_claim ino bno (XFS_FSB_TO_AGNO mp bno) (XFS_FSB_TO_AGBNO mp bno) (w_st w)"
    by simp
  show ?thesis
    apply (rule exI[of _ ?w'])
    apply (intro conjI)
       apply (rule e)
      apply (simp only: scan_bmapbt_unfold e sum.case)
    using bmapbt_claim_cases[of "w_st w" "XFS_FSB_TO_AGNO mp bno" "XFS_FSB_TO_AGBNO mp bno" ino bno]
     apply (simp only: s)
     apply blast
    using bmapbt_claim_cases[of "w_st w" "XFS_FSB_TO_AGNO mp bno" "XFS_FSB_TO_AGBNO mp bno" ino bno]
    apply (simp only: s)
    apply blast
    done
qed

lemma demo_lnode_pass:
  "bmapbt_header demo_env (demo_lnode n) 1 4 100 XFS_BMAP_MAGIC (demo_walk m) = None"
  "bmapbt_siblings (demo_lnode n) (nat 1) 4 100 (demo_walk m) = None"
  by (simp_all add: bmapbt_header_def bmapbt_siblings_def demo_lnode_def demo_walk_def
      demo_cursor_def XFS_BMAP_MAGIC_def XFS_BMAP_CRC_MAGIC_def Let_def)

theorem bmapbt_claim_rule_witness:
  "entered_state (bmapbt_enter demo_mount demo_env (demo_lnode 2) 1 0 0 4 100 False
      XFS_BMAP_MAGIC (demo_walk empty_bmap)) 0 4 = Some XR_E_INUSE \<and>
   entered_state (bmapbt_enter demo_mount demo_env (demo_lnode 2) 1 0 0 4 100 False
      XFS_BMAP_MAGIC (demo_walk demo_bmap)) 0 7 = Some XR_E_INO"
proof -
  have a: "XFS_FSB_TO_AGNO demo_mount 4 = 0" "XFS_FSB_TO_AGBNO demo_mount 4 = 4"
    by (simp_all add: XFS_FSB_TO_AGNO_def XFS_FSB_TO_AGBNO_def demo_mount_def)
  have u: "ag_bmap (w_st (demo_walk empty_bmap)) 0 4 = XR_E_UNKNOWN"
    by (simp add: demo_walk_def init_state_def empty_bmap_def)
  from bmapbt_claim_rule[where check_dups=False and env=demo_env and block="demo_lnode 2"
      and level=1 and bno=4 and ino=100 and magic=XFS_BMAP_MAGIC and w="demo_walk empty_bmap"
      and mp=demo_mount and type=0 and whichfork=0 and isroot=True, OF _ demo_lnode_pass]
  obtain w' where e: "bmapbt_enter demo_mount demo_env (demo_lnode 2) 1 0 0 4 100 False
      XFS_BMAP_MAGIC (demo_walk empty_bmap) = Inr w'"
    and c: "ag_bmap (w_st w') 0 4 = XR_E_INUSE"
    using u by (auto simp: a)
  have "entered_state (bmapbt_enter demo_mount demo_env (demo_lnode 2) 1 0 0 4 100 False
      XFS_BMAP_MAGIC (demo_walk demo_bmap)) 0 7 = Some XR_E_INO"
    using demo_lnode_pass[of 2 demo_bmap]
    by (simp add: bmapbt_enter_def entered_state_def a bmapbt_claim_def get_bmap_def
        demo_walk_def init_state_def demo_bmap_def bmap_set_def set_bmap_def set_bmap_ext_def)
  with e c show ?thesis by (simp add: entered_state_def)
qed

text \<open>
  C9 fails on the code: an interior node of level 1 with no record passes the
  bounds check when it is a root (\<open>isroot\<close> set, as for the blocks right under
  the inode), the loop over its children does not run, and the trailing update
  of the cursor reads the key at index \<open>numrecs - 1 = -1\<close>, outside the key area.
\<close>

theorem scan_bmapbt_zero_recs:
  "bm_fatal (scan_bmapbt demo_mount demo_env (demo_lnode 0) 1 0 0 4 100 True False
      XFS_BMAP_MAGIC (demo_walk empty_bmap)) = Some (Out_of_bounds (- 1))"
  using demo_lnode_pass[of 0 empty_bmap]
  by (simp add: scan_bmapbt_unfold bmapbt_enter_def bmapbt_body_def bmapbt_children_def
      bmapbt_finish_def key_at_def bm_fatal_def demo_lnode_def demo_mount_def demo_walk_def
      demo_cursor_def NULLFSBLOCK_def)

section \<open>Read failures in the walkers\<close>









section \<open>The steps of the visitors\<close>

lemma u32_u64 [simp]: "u32 (u64 x) = u32 x"
proof -
  have "(2::nat) ^ 32 dvd 2 ^ 64" by (rule le_imp_power_dvd) simp
  then show ?thesis unfolding u32_def u64_def by (rule mod_mod_cancel)
qed















lemma sticky_snoc:
  "sticky (es @ [e]) \<longleftrightarrow>
     sticky es \<and> (\<forall>e' \<in> set es. snd (snd (snd e')) = XR_E_MULT \<and> overlap e' e \<longrightarrow>
                    snd (snd (snd e)) = XR_E_MULT)"
  by (induction es) auto

lemma mult_kept_set_ext:
  assumes "mult_kept st"
    and "s = XR_E_MULT \<or> (\<forall>y. x \<le> y \<and> y < x + n \<longrightarrow> ag_bmap st a y \<noteq> XR_E_MULT)"
  shows "mult_kept (bmap_set_ext a x n s st)"
proof (cases "s = XR_E_MULT")
  case True
  with assms(1) show ?thesis
    by (auto simp: mult_kept_def bmap_set_ext_def set_bmap_ext_def sticky_snoc)
next
  case False
  with assms(2) have g: "\<And>y. x \<le> y \<Longrightarrow> y < x + n \<Longrightarrow> ag_bmap st a y \<noteq> XR_E_MULT" by blast
  have no: "\<not> overlap e' (a, x, n, s)"
    if "e' \<in> set (sets st)" "snd (snd (snd e')) = XR_E_MULT" for e'
  proof
    assume o: "overlap e' (a, x, n, s)"
    then obtain y where "y \<in> {fst (snd e') ..< fst (snd e') + fst (snd (snd e'))}"
      "x \<le> y" "y < x + n" "fst e' = a"
      by (auto simp: overlap_def)
    with assms(1) that g[of y] show False by (auto simp: mult_kept_def)
  qed
  have keep: "ag_bmap (bmap_set_ext a x n s st) (fst e') y = XR_E_MULT"
    if "e' \<in> set (sets st)" "snd (snd (snd e')) = XR_E_MULT"
      "y \<in> {fst (snd e') ..< fst (snd e') + fst (snd (snd e'))}" for e' y
  proof -
    from assms(1) that have m: "ag_bmap st (fst e') y = XR_E_MULT" by (auto simp: mult_kept_def)
    with g[of y] have "\<not> (fst e' = a \<and> x \<le> y \<and> y < x + n)" by auto
    with m show ?thesis by (auto simp: bmap_set_ext_def set_bmap_ext_def)
  qed
  from assms(1) False no keep show ?thesis
    unfolding mult_kept_def
    by (auto simp: sticky_snoc bmap_set_ext_def)
qed

lemma mult_kept_set:
  "mult_kept st \<Longrightarrow> s = XR_E_MULT \<or> ag_bmap st a x \<noteq> XR_E_MULT \<Longrightarrow> mult_kept (bmap_set a x s st)"
proof -
  assume a: "mult_kept st" "s = XR_E_MULT \<or> ag_bmap st a x \<noteq> XR_E_MULT"
  have e: "bmap_set a x s st = bmap_set_ext a x 1 s st"
    by (simp add: bmap_set_def bmap_set_ext_def set_bmap_def)
  from a(2) have "s = XR_E_MULT \<or> (\<forall>y. x \<le> y \<and> y < x + 1 \<longrightarrow> ag_bmap st a y \<noteq> XR_E_MULT)"
    by (auto simp: le_less_Suc_eq)
  from mult_kept_set_ext[OF a(1) this] show ?thesis unfolding e .
qed








lemma cnts_do_warn [simp]: "cnts (do_warn fmt args st) = cnts st"
  by (simp add: do_warn_def)

lemma ag_bmap_do_warn [simp]: "ag_bmap (do_warn fmt args st) = ag_bmap st"
  by (simp add: do_warn_def)




lemma res_state_simps [simp]: "res_state (Inl (e, st)) = st" "res_state (Inr st) = st"
  by (simp_all add: res_state_def)






lemma steps_one [simp]:
  "steps A st st"
  "steps A st (do_warn fmt args st)"
  by (intro steps_warn steps_refl)+


























section \<open>The free-list walk and the scan of one AG\<close>


lemma ag_fresh_warn [simp]: "ag_fresh k (do_warn fmt args st) = ag_fresh k st"
  by (simp add: ag_fresh_def mult_kept_def do_warn_def)

lemma ag_fresh_cnts [simp]: "ag_fresh k (st\<lparr>cnts := c\<rparr>) = ag_fresh k st"
  by (simp add: ag_fresh_def mult_kept_def)






lemma ag_done_simps [simp]:
  "ag_done k (do_warn fmt args st) = ag_done k st"
  "ag_done k (st\<lparr>cnts := c\<rparr>) = ag_done k st"
  by (simp_all add: ag_done_def mult_kept_def do_warn_def)





lemma agheader_warnings_done [simp]:
  "ag_done k (agheader_warnings mp status agno st) = ag_done k st"
  by (simp add: agheader_warnings_def Let_def)





section \<open>The extent-tree visitor keeps \<open>MULT\<close>\<close>

lemma mult_kept_warn [simp]: "mult_kept (do_warn fmt args st) = mult_kept st"
  by (simp add: mult_kept_def do_warn_def)

lemma mult_kept_lwarn [simp]: "mult_kept (w_st (lwarn fmt args w)) = mult_kept (w_st w)"
  by (simp add: lwarn_def)

lemma mult_kept_lread [simp]: "mult_kept (w_st (lread mp root w)) = mult_kept (w_st w)"
  by (simp add: lread_def mult_kept_def)










section \<open>The free-block count of an AG\<close>

















end
